theory Spec2Isabelle
  imports Main "HOL-Library.AList"
begin

section \<open>JavaScript values\<close>

text \<open>
  The values that travel through the handler: what \<^verbatim>\<open>JSON.parse\<close> returns, what
  \<^verbatim>\<open>send\<close> is given, and \<^verbatim>\<open>undefined\<close> for an unset field or an absent property.
  Numbers are integers here: the code never computes with a number, it only tests
  one for truthiness or turns it into a property key.
\<close>

datatype jsval =
    Undefined
  | Null
  | Bool bool
  | Num int
  | Str string
  | Arr "jsval list"
  | Obj "(string \<times> jsval) list"

datatype error =
    IllegalArgumentError string
  | SyntaxError
  | TypeError
  | InvalidStateError

fun truthy :: "jsval \<Rightarrow> bool" where
  "truthy Undefined = False"
| "truthy Null = False"
| "truthy (Bool b) = b"
| "truthy (Num n) = (n \<noteq> 0)"
| "truthy (Str s) = (s \<noteq> [])"
| "truthy (Arr xs) = True"
| "truthy (Obj kvs) = True"

fun typeof :: "jsval \<Rightarrow> string" where
  "typeof Undefined = ''undefined''"
| "typeof Null = ''object''"
| "typeof (Bool b) = ''boolean''"
| "typeof (Num n) = ''number''"
| "typeof (Str s) = ''string''"
| "typeof (Arr xs) = ''object''"
| "typeof (Obj kvs) = ''object''"

text \<open>\<^verbatim>\<open>a === b\<close>: primitives compare by value; an array or object is only equal to
  itself as a reference, and no two values compared in this code share one.\<close>

fun strict_eq :: "jsval \<Rightarrow> jsval \<Rightarrow> bool" where
  "strict_eq (Arr xs) b = False"
| "strict_eq (Obj kvs) b = False"
| "strict_eq a b = (a = b)"

text \<open>\<^verbatim>\<open>a ?? b\<close>\<close>

definition coalesce :: "jsval \<Rightarrow> jsval \<Rightarrow> jsval" where
  "coalesce a b = (if a = Undefined \<or> a = Null then b else a)"

definition digit_char :: "nat \<Rightarrow> char" where
  "digit_char d = ''0123456789'' ! d"

fun string_of_nat :: "nat \<Rightarrow> string" where
  "string_of_nat n = (if n < 10 then [digit_char n]
     else string_of_nat (n div 10) @ [digit_char (n mod 10)])"

text \<open>String conversion, as a template literal and a property key perform it.\<close>

fun ToString :: "jsval \<Rightarrow> string" and join_elems :: "jsval list \<Rightarrow> string" where
  "ToString Undefined = ''undefined''"
| "ToString Null = ''null''"
| "ToString (Bool b) = (if b then ''true'' else ''false'')"
| "ToString (Num n) =
     (if n < 0 then ''-'' @ string_of_nat (nat (- n)) else string_of_nat (nat n))"
| "ToString (Str s) = s"
| "ToString (Arr xs) = join_elems xs"
| "ToString (Obj kvs) = ''[object Object]''"
| "join_elems [] = []"
| "join_elems [x] = (if x = Undefined \<or> x = Null then [] else ToString x)"
| "join_elems (x # y # ys) =
     (if x = Undefined \<or> x = Null then [] else ToString x) @ '','' @ join_elems (y # ys)"

text \<open>
  The property read \<^verbatim>\<open>v.k\<close>, for the names this code reads (\<^verbatim>\<open>event\<close>, \<^verbatim>\<open>action\<close>,
  \<^verbatim>\<open>payload\<close>, \<^verbatim>\<open>settings\<close>): none of them is a member of a built-in prototype, so a
  primitive or an array answers \<^verbatim>\<open>undefined\<close>, and \<^verbatim>\<open>undefined\<close> and \<^verbatim>\<open>null\<close> raise.
\<close>

fun get_prop :: "jsval \<Rightarrow> string \<Rightarrow> error + jsval" where
  "get_prop Undefined k = Inl TypeError"
| "get_prop Null k = Inl TypeError"
| "get_prop (Obj kvs) k = Inr (case map_of kvs k of None \<Rightarrow> Undefined | Some v \<Rightarrow> v)"
| "get_prop v k = Inr Undefined"

text \<open>The own enumerable properties that \<^verbatim>\<open>{...v}\<close> copies.\<close>

fun own_props :: "jsval \<Rightarrow> (string \<times> jsval) list" where
  "own_props (Obj kvs) = kvs"
| "own_props (Arr xs) = zip (map string_of_nat [0..<length xs]) xs"
| "own_props (Str s) = zip (map string_of_nat [0..<length s]) (map (\<lambda>c. Str [c]) s)"
| "own_props v = []"

definition spread_into :: "(string \<times> jsval) list \<Rightarrow> jsval \<Rightarrow> (string \<times> jsval) list" where
  "spread_into kvs v = fold (\<lambda>(k, x). AList.update k x) (own_props v) kvs"

section \<open>The platform\<close>

text \<open>
  What the browser supplies and the repository does not define is a parameter of the
  model: the JSON serialiser and parser (\<open>None\<close> is the \<^verbatim>\<open>SyntaxError\<close> of
  \<^verbatim>\<open>JSON.parse\<close>), the property names an array inherits from its prototype chain, and
  which URLs the \<^verbatim>\<open>WebSocket\<close> constructor accepts.
\<close>

record platform =
  JSON_stringify :: "jsval \<Rightarrow> string"
  JSON_parse :: "string \<Rightarrow> jsval option"
  Array_prototype_keys :: "string list"
  WebSocket_accepts :: "string \<Rightarrow> bool"

text \<open>\<^verbatim>\<open>key in [x0, ..., xn]\<close>: the key, as a property key, is an index of the array, or
  \<^verbatim>\<open>length\<close>, or inherited.\<close>

definition js_in :: "platform \<Rightarrow> jsval \<Rightarrow> jsval list \<Rightarrow> bool" where
  "js_in P key xs =
     (let k = ToString key in
        k \<in> set (map string_of_nat [0..<length xs])
        \<or> k = ''length''
        \<or> k \<in> set (Array_prototype_keys P))"

subsection \<open>The socket\<close>

datatype ready_state = CONNECTING | OPEN | CLOSING | CLOSED

record websocket =
  url :: string
  readyState :: ready_state
  transmitted :: "string list"

definition new_WebSocket :: "string \<Rightarrow> websocket" where
  "new_WebSocket u = \<lparr>url = u, readyState = CONNECTING, transmitted = []\<rparr>"

text \<open>\<^verbatim>\<open>WebSocket.send\<close>: raises while connecting, transmits when open, and discards
  silently once closing or closed.\<close>

fun ws_send :: "websocket \<Rightarrow> string \<Rightarrow> error + websocket" where
  "ws_send w d =
     (case readyState w of
        CONNECTING \<Rightarrow> Inl InvalidStateError
      | OPEN \<Rightarrow> Inr (w\<lparr>transmitted := transmitted w @ [d]\<rparr>)
      | CLOSING \<Rightarrow> Inr w
      | CLOSED \<Rightarrow> Inr w)"

section \<open>State\<close>

text \<open>Arguments of a callback or of a console call: a value, or one of the host objects
  the code passes along.\<close>

datatype arg =
    Val jsval
  | SettingsManagerRef
  | WebSocketRef
  | MessageEventRef string
  | ArrayOf "arg list"

datatype level = LOG | WARN | ERROR

text \<open>The callback that \<^verbatim>\<open>DefaultDecoratorEventListener\<close> registers is a closure over
  \<^verbatim>\<open>event\<close>, \<^verbatim>\<open>actionName\<close>, \<^verbatim>\<open>instance\<close> and \<^verbatim>\<open>descriptor\<close>.\<close>

record listener =
  l_event :: string
  l_actionName :: jsval
  l_instance :: nat
  l_descriptor :: string

text \<open>
  The fields of \<^verbatim>\<open>StreamDeckHandlerBase\<close> (a leading underscore is written \<open>p_\<close>), the
  table of the \<^verbatim>\<open>EventManager\<close> singleton, and the effects: the console, the values
  handed to the settings cache, the calls of \<^verbatim>\<open>callEvents\<close> in order (\<open>emitted\<close>), and
  the calls of \<^verbatim>\<open>descriptor.value.apply(instance, params)\<close> in order (\<open>invoked\<close>).
\<close>

record sd_state =
  p_documentReady :: bool
  p_connectionReady :: bool
  p_globalSettingsReady :: bool
  p_documentReadyInvoked :: bool
  p_connectionReadyInvoked :: bool
  p_globalSettingsInvoked :: bool
  p_onReadyInvoked :: bool
  p_debug :: bool
  p_port :: jsval
  p_uuid :: jsval
  p_registerEvent :: jsval
  p_info :: jsval
  p_ws :: "websocket option"
  p_cachedEvents :: "string list"
  registeredEvents :: "(string \<times> listener list) list"
  console :: "(level \<times> arg list) list"
  globalSettingsCache :: "jsval list"
  emitted :: "(jsval \<times> jsval \<times> arg list) list"
  invoked :: "(string \<times> nat \<times> arg list) list"

text \<open>A call returns, or throws and leaves the state as it was at the throw.\<close>

datatype outcome = Done sd_state | Thrown error sd_state

fun and_then :: "outcome \<Rightarrow> (sd_state \<Rightarrow> outcome) \<Rightarrow> outcome" where
  "and_then (Done s) f = f s"
| "and_then (Thrown e s) f = Thrown e s"

fun state_of :: "outcome \<Rightarrow> sd_state" where
  "state_of (Done s) = s"
| "state_of (Thrown e s) = s"

definition console_call :: "level \<Rightarrow> arg list \<Rightarrow> sd_state \<Rightarrow> sd_state" where
  "console_call l as s = s\<lparr>console := console s @ [(l, as)]\<rparr>"

text \<open>Modelled from the spec: \<^verbatim>\<open>SettingsManager.cacheGlobalSettings\<close> is not part of
  the sources at hand; the cache is plain storage with set semantics, so the model
  records each value it is handed, the newest last.\<close>

definition cacheGlobalSettings :: "jsval \<Rightarrow> sd_state \<Rightarrow> sd_state" where
  "cacheGlobalSettings v s = s\<lparr>globalSettingsCache := globalSettingsCache s @ [v]\<rparr>"

section \<open>EventManager\<close>

definition Map_get :: "(string \<times> 'a) list \<Rightarrow> jsval \<Rightarrow> 'a option" where
  "Map_get m k = (case k of Str n \<Rightarrow> map_of m n | _ \<Rightarrow> None)"

definition registerEvent :: "string \<Rightarrow> listener \<Rightarrow> sd_state \<Rightarrow> sd_state" where
  "registerEvent eventName callback s =
     (let m = registeredEvents s;
          m1 = (if map_of m eventName = None then AList.update eventName [] m else m)
      in s\<lparr>registeredEvents :=
           (case map_of m1 eventName of
              None \<Rightarrow> m1
            | Some cbs \<Rightarrow> AList.update eventName (cbs @ [callback]) m1)\<rparr>)"

definition global_only :: "jsval list" where
  "global_only = [Str ''didReceiveGlobalSettings'', Str ''globalSettingsAvailable'',
     Str ''setupReady'']"

definition fixVariant :: nat where
  "fixVariant = 1"

definition apply_descriptor :: "listener \<Rightarrow> arg list \<Rightarrow> sd_state \<Rightarrow> sd_state" where
  "apply_descriptor cb params s =
     s\<lparr>invoked := invoked s @ [(l_descriptor cb, l_instance cb, params)]\<rparr>"

text \<open>The body of the registered callback, called with \<^verbatim>\<open>(eventActionName, ...params)\<close>.\<close>

definition listener_call ::
  "platform \<Rightarrow> listener \<Rightarrow> jsval \<Rightarrow> arg list \<Rightarrow> sd_state \<Rightarrow> sd_state" where
  "listener_call P cb eventActionName params s =
     (let event = l_event cb;
          actionName = l_actionName cb;
          s1 = console_call LOG [Val (Str ''eventlister callbacks for''), Val (Str event)] s;
          s2 = (if js_in P (Str event) global_only
                then console_call LOG [Val (Str ''note that what is called actionName in callEvents before will here be eventActionName, not actionName (lambda in lambda).'')] s1
                else s1)
      in if \<not> truthy eventActionName \<or> strict_eq actionName (Str ''*'')
            \<or> strict_eq actionName eventActionName
         then apply_descriptor cb params
                (console_call LOG [Val (Str ''[UPSTREAM] triggering event:''), Val (Str event),
                   Val (Str ''eventActionName:''), Val eventActionName,
                   Val (Str ''actionName:''), Val actionName] s2)
         else
           (let s3 = console_call WARN [Val (Str ''eventActionName:''), Val eventActionName,
                       Val (Str ''actionName:''), Val actionName,
                       Val (Str (''failed condition: (!eventActionName || actionName === '' @ [CHR 0x27]
                         @ ''*'' @ [CHR 0x27] @ '' || actionName === eventActionName)''))] s2
            in if fixVariant = 1 then
                 (if \<not> truthy eventActionName \<or> strict_eq eventActionName (Str ''*'')
                     \<or> strict_eq actionName eventActionName
                  then apply_descriptor cb params
                         (console_call WARN [Val (Str ''[Fix variant one] triggering event:''),
                            Val (Str event), Val (Str ''eventActionName:''), Val eventActionName,
                            Val (Str ''actionName:''), Val actionName] s3)
                  else s3)
               else
                 (if \<not> truthy eventActionName \<or> strict_eq actionName (Str ''*'')
                     \<or> strict_eq eventActionName (Str ''*'')
                     \<or> strict_eq actionName eventActionName
                  then apply_descriptor cb params
                         (console_call WARN [Val (Str ''[Fix variant two] triggering event:''),
                            Val (Str event), Val (Str ''eventActionName:''), Val eventActionName,
                            Val (Str ''actionName:''), Val actionName] s3)
                  else s3)))"

text \<open>\<^verbatim>\<open>callEvents(eventName, actionName = '*', ...params)\<close>\<close>

definition callEvents ::
  "platform \<Rightarrow> jsval \<Rightarrow> jsval \<Rightarrow> arg list \<Rightarrow> sd_state \<Rightarrow> sd_state" where
  "callEvents P eventName actionName0 params s =
     (let actionName = (if actionName0 = Undefined then Str ''*'' else actionName0);
          s1 = (if js_in P eventName global_only
                then console_call LOG [Val (Str ''event manager: callEvents''),
                       Val (Str ''eventName:''), Val eventName,
                       Val (Str ''actionName:''), Val actionName,
                       Val (Str ''params:''), ArrayOf params] s
                else s);
          s2 = s1\<lparr>emitted := emitted s1 @ [(eventName, actionName, params)]\<rparr>
      in case Map_get (registeredEvents s2) eventName of
           None \<Rightarrow> s2
         | Some cbs \<Rightarrow> fold (\<lambda>cb. listener_call P cb actionName params) cbs s2)"

text \<open>The closure \<^verbatim>\<open>eventListener(actionName, instance)\<close> that
  \<^verbatim>\<open>DefaultDecoratorEventListener(event, target, propertyKey, descriptor)\<close> builds, and
  the push of it onto \<^verbatim>\<open>target._sd_events\<close>.\<close>

definition eventListener ::
  "string \<Rightarrow> string \<Rightarrow> jsval \<Rightarrow> nat \<Rightarrow> sd_state \<Rightarrow> outcome" where
  "eventListener event descriptor actionName instance s =
     (if typeof actionName \<noteq> ''string''
      then Thrown (IllegalArgumentError
             (''actionName needs to be of type string but '' @ typeof actionName @ '' given.'')) s
      else Done (registerEvent event
             \<lparr>l_event = event, l_actionName = actionName, l_instance = instance,
              l_descriptor = descriptor\<rparr> s))"

definition DefaultDecoratorEventListener ::
  "string \<Rightarrow> string \<Rightarrow> (string \<times> string) list \<Rightarrow> (string \<times> string) list" where
  "DefaultDecoratorEventListener event descriptor sd_events = sd_events @ [(event, descriptor)]"

section \<open>StreamDeckHandlerBase\<close>

definition ws_arg :: "sd_state \<Rightarrow> arg" where
  "ws_arg s = (case p_ws s of None \<Rightarrow> Val Undefined | Some w \<Rightarrow> WebSocketRef)"

text \<open>\<^verbatim>\<open>send(event, data)\<close>: the frame is \<^verbatim>\<open>{event, ...data}\<close>; the test \<^verbatim>\<open>if (this._ws)\<close>
  asks whether the socket object exists.\<close>

definition send :: "platform \<Rightarrow> jsval \<Rightarrow> jsval \<Rightarrow> sd_state \<Rightarrow> outcome" where
  "send P event data s =
     (let eventToSend = Obj (spread_into [(''event'', event)] data);
          s1 = (if p_debug s
                then console_call LOG [Val (Str (''SEND '' @ ToString event)), Val eventToSend,
                       ws_arg s] s
                else s)
      in case p_ws s1 of
           Some w \<Rightarrow>
             (case ws_send w (JSON_stringify P eventToSend) of
                Inl e \<Rightarrow> Thrown e s1
              | Inr w' \<Rightarrow> Done (s1\<lparr>p_ws := Some w'\<rparr>))
         | None \<Rightarrow>
             (let s2 = (if p_debug s1
                        then console_call ERROR
                               [Val (Str ''COULD NOT SEND. CACHING FOR RESEND EVENT'')] s1
                        else s1)
              in Done (s2\<lparr>p_cachedEvents :=
                           p_cachedEvents s2 @ [JSON_stringify P eventToSend]\<rparr>)))"

definition setSettings :: "platform \<Rightarrow> jsval \<Rightarrow> jsval \<Rightarrow> sd_state \<Rightarrow> outcome" where
  "setSettings P settings context s =
     send P (Str ''setSettings'') (Obj [(''context'', context), (''payload'', settings)]) s"

definition requestSettings :: "platform \<Rightarrow> jsval \<Rightarrow> sd_state \<Rightarrow> outcome" where
  "requestSettings P context s = send P (Str ''getSettings'') (Obj [(''context'', context)]) s"

definition setGlobalSettings :: "platform \<Rightarrow> jsval \<Rightarrow> sd_state \<Rightarrow> outcome" where
  "setGlobalSettings P settings s =
     send P (Str ''setGlobalSettings'')
       (Obj [(''context'', p_uuid s), (''payload'', settings)]) s"

definition requestGlobalSettings :: "platform \<Rightarrow> sd_state \<Rightarrow> outcome" where
  "requestGlobalSettings P s =
     send P (Str ''getGlobalSettings'') (Obj [(''context'', p_uuid s)]) s"

definition openUrl :: "platform \<Rightarrow> jsval \<Rightarrow> sd_state \<Rightarrow> outcome" where
  "openUrl P u s = send P (Str ''openUrl'') (Obj [(''payload'', Obj [(''url'', u)])]) s"

definition logMessage :: "platform \<Rightarrow> jsval \<Rightarrow> sd_state \<Rightarrow> outcome" where
  "logMessage P message s =
     send P (Str ''logMessage'') (Obj [(''payload'', Obj [(''message'', message)])]) s"

definition enableDebug :: "sd_state \<Rightarrow> sd_state" where
  "enableDebug s = s\<lparr>p_debug := True\<rparr>"

text \<open>\<^verbatim>\<open>_handleReadyState()\<close>\<close>

definition p_handleReadyState :: "platform \<Rightarrow> sd_state \<Rightarrow> sd_state" where
  "p_handleReadyState P s =
     (let s1 = (if p_connectionReady s \<and> \<not> p_connectionReadyInvoked s
                then callEvents P (Str ''connectionOpened'') Undefined []
                       (s\<lparr>p_connectionReadyInvoked := True\<rparr>)
                else s);
          s2 = (if p_documentReady s1 \<and> \<not> p_documentReadyInvoked s1
                then callEvents P (Str ''documentLoaded'') Undefined []
                       (s1\<lparr>p_documentReadyInvoked := True\<rparr>)
                else s1);
          s3 = (if p_globalSettingsReady s2 \<and> \<not> p_globalSettingsInvoked s2
                then callEvents P (Str ''globalSettingsAvailable'') (Str ''*'')
                       [SettingsManagerRef] (s2\<lparr>p_globalSettingsInvoked := True\<rparr>)
                else s2)
      in if p_globalSettingsInvoked s3 \<and> p_documentReadyInvoked s3
            \<and> p_connectionReadyInvoked s3 \<and> \<not> p_onReadyInvoked s3
         then callEvents P (Str ''setupReady'') Undefined [] (s3\<lparr>p_onReadyInvoked := True\<rparr>)
         else s3)"

text \<open>The loop of \<^verbatim>\<open>_open\<close> over the cached events: each is handed to
  \<^verbatim>\<open>this._ws.send\<close>, which is a \<^verbatim>\<open>TypeError\<close> when there is no socket.\<close>

fun resend :: "string list \<Rightarrow> sd_state \<Rightarrow> outcome" where
  "resend [] s = Done s"
| "resend (cachedEvent # rest) s =
     (case p_ws s of
        None \<Rightarrow> Thrown TypeError s
      | Some w \<Rightarrow>
          (case ws_send w cachedEvent of
             Inl e \<Rightarrow> Thrown e s
           | Inr w' \<Rightarrow> resend rest (s\<lparr>p_ws := Some w'\<rparr>)))"

text \<open>\<^verbatim>\<open>_open()\<close>\<close>

definition p_open :: "platform \<Rightarrow> sd_state \<Rightarrow> outcome" where
  "p_open P s =
     and_then (send P (p_registerEvent s) (Obj [(''uuid'', p_uuid s)]) s) (\<lambda>s1.
     and_then
       (if length (p_cachedEvents s1) \<ge> 1
        then resend (p_cachedEvents s1)
               (if p_debug s1
                then console_call LOG [Val (Str ''RESENDING CACHED EVENTS: ''),
                       Val (Arr (map Str (p_cachedEvents s1)))] s1
                else s1)
        else Done s1) (\<lambda>s2.
     requestGlobalSettings P (p_handleReadyState P (s2\<lparr>p_connectionReady := True\<rparr>))))"

text \<open>\<^verbatim>\<open>_eventHandler(ev)\<close>, given \<^verbatim>\<open>ev.data\<close>\<close>

definition p_eventHandler :: "platform \<Rightarrow> string \<Rightarrow> sd_state \<Rightarrow> outcome" where
  "p_eventHandler P ev_data s =
     (case JSON_parse P ev_data of
        None \<Rightarrow> Thrown SyntaxError s
      | Some eventData \<Rightarrow>
          (case get_prop eventData ''event'' of
             Inl e \<Rightarrow> Thrown e s
           | Inr event \<Rightarrow>
               (let s1 = (if p_debug s
                          then console_call LOG [Val (Str (''RECEIVE '' @ ToString event)),
                                 Val eventData, MessageEventRef ev_data] s
                          else s)
                in and_then
                     (if strict_eq event (Str ''didReceiveGlobalSettings'')
                      then (case get_prop eventData ''payload'' of
                              Inl e \<Rightarrow> Thrown e s1
                            | Inr payload \<Rightarrow>
                                (case get_prop payload ''settings'' of
                                   Inl e \<Rightarrow> Thrown e s1
                                 | Inr settings \<Rightarrow>
                                     Done (p_handleReadyState P
                                       ((cacheGlobalSettings settings s1)
                                          \<lparr>p_globalSettingsReady := True\<rparr>))))
                      else Done s1)
                     (\<lambda>s2. case get_prop eventData ''action'' of
                              Inl e \<Rightarrow> Thrown e s2
                            | Inr action \<Rightarrow>
                                Done (callEvents P event (coalesce action (Str ''*''))
                                        [Val eventData] s2)))))"

text \<open>\<^verbatim>\<open>_connectElgatoStreamDeckSocket()\<close>: the socket is created, connecting; its
  \<^verbatim>\<open>onopen\<close>, \<^verbatim>\<open>onclose\<close> and \<^verbatim>\<open>onmessage\<close> are the inputs below.\<close>

definition p_connectElgatoStreamDeckSocket :: "platform \<Rightarrow> sd_state \<Rightarrow> outcome" where
  "p_connectElgatoStreamDeckSocket P s =
     (let u = ''ws://127.0.0.1:'' @ ToString (p_port s)
      in if WebSocket_accepts P u then Done (s\<lparr>p_ws := Some (new_WebSocket u)\<rparr>)
         else Thrown SyntaxError s)"

text \<open>The function the constructor installs as \<^verbatim>\<open>window.connectElgatoStreamDeckSocket\<close>.
  Its last statement registers \<open>docReady_callback\<close> with the document, to run later.\<close>

definition connectElgatoStreamDeckSocket ::
  "platform \<Rightarrow> string \<Rightarrow> string \<Rightarrow> string \<Rightarrow> string \<Rightarrow> jsval \<Rightarrow> sd_state \<Rightarrow> outcome" where
  "connectElgatoStreamDeckSocket P port uuid registerEvent_name info actionInfo s =
     (let s1 = s\<lparr>p_port := Str port, p_uuid := Str uuid,
                 p_registerEvent := Str registerEvent_name\<rparr>
      in case JSON_parse P info of
           None \<Rightarrow> Thrown SyntaxError s1
         | Some i \<Rightarrow>
             (let s2 = s1\<lparr>p_info := i\<rparr>;
                  s3 = (if truthy actionInfo
                        then callEvents P (Str ''registerPi'') (Str ''*'') [Val actionInfo] s2
                        else s2)
              in p_connectElgatoStreamDeckSocket P s3))"

definition docReady_callback :: "platform \<Rightarrow> sd_state \<Rightarrow> sd_state" where
  "docReady_callback P s = p_handleReadyState P (s\<lparr>p_documentReady := True\<rparr>)"

text \<open>The field initialisers, and the constructor: every listener of \<^verbatim>\<open>_sd_events\<close> is
  called with \<^verbatim>\<open>('*', this)\<close>.\<close>

definition fresh :: sd_state where
  "fresh = \<lparr>p_documentReady = False, p_connectionReady = False, p_globalSettingsReady = False,
     p_documentReadyInvoked = False, p_connectionReadyInvoked = False,
     p_globalSettingsInvoked = False, p_onReadyInvoked = False, p_debug = False,
     p_port = Undefined, p_uuid = Undefined, p_registerEvent = Undefined, p_info = Undefined,
     p_ws = None, p_cachedEvents = [], registeredEvents = [], console = [],
     globalSettingsCache = [], emitted = [], invoked = []\<rparr>"

fun register_all :: "(string \<times> string) list \<Rightarrow> nat \<Rightarrow> sd_state \<Rightarrow> outcome" where
  "register_all [] this s = Done s"
| "register_all ((event, descriptor) # rest) this s =
     and_then (eventListener event descriptor (Str ''*'') this s) (register_all rest this)"

definition constructor :: "(string \<times> string) list \<Rightarrow> nat \<Rightarrow> outcome" where
  "constructor sd_events this = register_all sd_events this fresh"

section \<open>The event loop\<close>

text \<open>
  What can happen to a handler: the host calls \<^verbatim>\<open>connectElgatoStreamDeckSocket\<close>, the
  document becomes ready, the socket opens, closes or delivers a message, and plugin code
  calls \<^verbatim>\<open>send\<close>, \<^verbatim>\<open>enableDebug\<close> or a listener of \<^verbatim>\<open>_sd_events\<close>. The socket fires
  \<^verbatim>\<open>onopen\<close> only while connecting, \<^verbatim>\<open>onmessage\<close> only once open and \<^verbatim>\<open>onclose\<close> only
  once. An exception that leaves a callback ends that callback and nothing else: the
  next input finds the state as the throw left it.
\<close>

datatype input =
    HostConnect string string string string jsval
  | DocumentReady
  | SocketOpen
  | SocketClose
  | SocketMessage string
  | CallSend jsval jsval
  | CallEnableDebug
  | CallEventListener string string jsval nat

fun step :: "platform \<Rightarrow> input \<Rightarrow> sd_state \<Rightarrow> outcome" where
  "step P (HostConnect port uuid reg info actionInfo) s =
     connectElgatoStreamDeckSocket P port uuid reg info actionInfo s"
| "step P DocumentReady s = Done (docReady_callback P s)"
| "step P SocketOpen s =
     (case p_ws s of
        None \<Rightarrow> Done s
      | Some w \<Rightarrow>
          if readyState w = CONNECTING then p_open P (s\<lparr>p_ws := Some (w\<lparr>readyState := OPEN\<rparr>)\<rparr>)
          else Done s)"
| "step P SocketClose s =
     (case p_ws s of
        None \<Rightarrow> Done s
      | Some w \<Rightarrow>
          if readyState w \<noteq> CLOSED
          then Done (callEvents P (Str ''connectionClosed'') Undefined []
                       (s\<lparr>p_ws := Some (w\<lparr>readyState := CLOSED\<rparr>)\<rparr>))
          else Done s)"
| "step P (SocketMessage ev_data) s =
     (case p_ws s of
        None \<Rightarrow> Done s
      | Some w \<Rightarrow>
          if readyState w = OPEN \<or> readyState w = CLOSING then p_eventHandler P ev_data s
          else Done s)"
| "step P (CallSend event data) s = send P event data s"
| "step P CallEnableDebug s = Done (enableDebug s)"
| "step P (CallEventListener event descriptor actionName instance) s =
     eventListener event descriptor actionName instance s"

fun run :: "platform \<Rightarrow> input list \<Rightarrow> sd_state \<Rightarrow> sd_state" where
  "run P [] s = s"
| "run P (i # is) s = run P is (state_of (step P i s))"

section \<open>Notions used in the statements\<close>

text \<open>The seven booleans of the readiness mechanism.\<close>

definition flags :: "sd_state \<Rightarrow> bool \<times> bool \<times> bool \<times> bool \<times> bool \<times> bool \<times> bool" where
  "flags s = (p_documentReady s, p_connectionReady s, p_globalSettingsReady s,
     p_documentReadyInvoked s, p_connectionReadyInvoked s, p_globalSettingsInvoked s,
     p_onReadyInvoked s)"

text \<open>The four calls of \<^verbatim>\<open>callEvents\<close> that \<^verbatim>\<open>_handleReadyState\<close> makes, as \<open>emitted\<close>
  records them. A frame that the handler forwards is recorded with the frame as its one
  parameter, so it is none of these.\<close>

definition connectionOpened :: "jsval \<times> jsval \<times> arg list" where
  "connectionOpened = (Str ''connectionOpened'', Str ''*'', [])"

definition documentLoaded :: "jsval \<times> jsval \<times> arg list" where
  "documentLoaded = (Str ''documentLoaded'', Str ''*'', [])"

definition globalSettingsAvailable :: "jsval \<times> jsval \<times> arg list" where
  "globalSettingsAvailable = (Str ''globalSettingsAvailable'', Str ''*'', [SettingsManagerRef])"

definition setupReady :: "jsval \<times> jsval \<times> arg list" where
  "setupReady = (Str ''setupReady'', Str ''*'', [])"

text \<open>What was emitted before the first \<^verbatim>\<open>setupReady\<close>.\<close>

definition before_setupReady :: "sd_state \<Rightarrow> (jsval \<times> jsval \<times> arg list) list" where
  "before_setupReady s = takeWhile (\<lambda>x. x \<noteq> setupReady) (emitted s)"

text \<open>Each notification has been emitted once if its latch is set and never otherwise,
  the composite latch implies the three others, and \<^verbatim>\<open>setupReady\<close> comes after them.\<close>

definition ready_inv :: "sd_state \<Rightarrow> bool" where
  "ready_inv s \<longleftrightarrow>
     count_list (emitted s) connectionOpened = (if p_connectionReadyInvoked s then 1 else 0)
     \<and> count_list (emitted s) documentLoaded = (if p_documentReadyInvoked s then 1 else 0)
     \<and> count_list (emitted s) globalSettingsAvailable =
         (if p_globalSettingsInvoked s then 1 else 0)
     \<and> count_list (emitted s) setupReady = (if p_onReadyInvoked s then 1 else 0)
     \<and> (p_onReadyInvoked s \<longrightarrow>
          p_connectionReadyInvoked s \<and> p_documentReadyInvoked s \<and> p_globalSettingsInvoked s)
     \<and> (setupReady \<in> set (emitted s) \<longrightarrow>
          connectionOpened \<in> set (before_setupReady s)
          \<and> documentLoaded \<in> set (before_setupReady s)
          \<and> globalSettingsAvailable \<in> set (before_setupReady s))"

text \<open>Nothing is pending: \<^verbatim>\<open>_handleReadyState\<close> has run since the last flag was set.\<close>

definition settled :: "sd_state \<Rightarrow> bool" where
  "settled s \<longleftrightarrow>
     (p_connectionReady s \<longrightarrow> p_connectionReadyInvoked s)
     \<and> (p_documentReady s \<longrightarrow> p_documentReadyInvoked s)
     \<and> (p_globalSettingsReady s \<longrightarrow> p_globalSettingsInvoked s)
     \<and> (p_connectionReadyInvoked s \<and> p_documentReadyInvoked s \<and> p_globalSettingsInvoked s
          \<longrightarrow> p_onReadyInvoked s)"

text \<open>No readiness flag of \<open>s\<close> is lost in \<open>t\<close>.\<close>

definition flags_kept :: "sd_state \<Rightarrow> sd_state \<Rightarrow> bool" where
  "flags_kept s t \<longleftrightarrow>
     (p_documentReady s \<longrightarrow> p_documentReady t)
     \<and> (p_connectionReady s \<longrightarrow> p_connectionReady t)
     \<and> (p_globalSettingsReady s \<longrightarrow> p_globalSettingsReady t)"

text \<open>The state without its console output.\<close>

definition mute :: "sd_state \<Rightarrow> sd_state" where
  "mute s = s\<lparr>console := []\<rparr>"

text \<open>\<^verbatim>\<open>callEvents\<close> with the branch guarded by the \<^verbatim>\<open>in\<close> test removed.\<close>

definition callEvents_unguarded ::
  "platform \<Rightarrow> jsval \<Rightarrow> jsval \<Rightarrow> arg list \<Rightarrow> sd_state \<Rightarrow> sd_state" where
  "callEvents_unguarded P eventName actionName0 params s =
     (let actionName = (if actionName0 = Undefined then Str ''*'' else actionName0);
          s2 = s\<lparr>emitted := emitted s @ [(eventName, actionName, params)]\<rparr>
      in case Map_get (registeredEvents s2) eventName of
           None \<Rightarrow> s2
         | Some cbs \<Rightarrow> fold (\<lambda>cb. listener_call P cb actionName params) cbs s2)"

section \<open>A platform for concrete runs\<close>

text \<open>
  The theorems below hold for every platform. To run the model on concrete inputs, this
  one serialises without escapes, parses exactly the texts of \<open>sample_frames\<close> (any other
  text is a syntax error), lets an array inherit a few of the members of
  \<^verbatim>\<open>Array.prototype\<close> and \<^verbatim>\<open>Object.prototype\<close>, and accepts every URL.
\<close>

fun encode :: "jsval \<Rightarrow> string" and encode_elems :: "jsval list \<Rightarrow> string"
  and encode_fields :: "(string \<times> jsval) list \<Rightarrow> string" where
  "encode Undefined = ''null''"
| "encode Null = ''null''"
| "encode (Bool b) = (if b then ''true'' else ''false'')"
| "encode (Num n) = ToString (Num n)"
| "encode (Str s) = ''\"'' @ s @ ''\"''"
| "encode (Arr xs) = ''['' @ encode_elems xs @ '']''"
| "encode (Obj kvs) = ''{'' @ encode_fields kvs @ ''}''"
| "encode_elems [] = []"
| "encode_elems [x] = encode x"
| "encode_elems (x # y # ys) = encode x @ '','' @ encode_elems (y # ys)"
| "encode_fields [] = []"
| "encode_fields [(k, v)] = ''\"'' @ k @ ''\":'' @ encode v"
| "encode_fields ((k, v) # kv # kvs) =
     ''\"'' @ k @ ''\":'' @ encode v @ '','' @ encode_fields (kv # kvs)"

definition settings_frame :: "int \<Rightarrow> jsval" where
  "settings_frame n = Obj [(''event'', Str ''didReceiveGlobalSettings''),
     (''payload'', Obj [(''settings'', Obj [(''volume'', Num n)])])]"

definition bare_settings_frame :: jsval where
  "bare_settings_frame = Obj [(''event'', Str ''didReceiveGlobalSettings'')]"

definition keyDown_frame :: "jsval \<Rightarrow> jsval" where
  "keyDown_frame a = Obj [(''event'', Str ''keyDown''), (''action'', a)]"

definition keyDown_global :: jsval where
  "keyDown_global = Obj [(''event'', Str ''keyDown'')]"

definition sample_frames :: "jsval list" where
  "sample_frames =
     [Obj [], settings_frame 3, settings_frame 7, keyDown_global,
      keyDown_frame (Str ''com.foo.action1''), keyDown_frame (Str ''com.foo.action2''),
      keyDown_frame (Str ''*''), keyDown_frame (Str []), bare_settings_frame]"

definition sample_platform :: platform where
  "sample_platform =
     \<lparr>JSON_stringify = encode,
      JSON_parse = map_of (map (\<lambda>v. (encode v, v)) sample_frames),
      Array_prototype_keys =
        [''constructor'', ''toString'', ''hasOwnProperty'', ''push'', ''map'', ''includes''],
      WebSocket_accepts = (\<lambda>u. True)\<rparr>"

text \<open>A plugin with one handler of \<^verbatim>\<open>keyDown\<close>, and the host's call that connects it.\<close>

definition constructed :: sd_state where
  "constructed = state_of (constructor [(''keyDown'', ''onKeyDown'')] 0)"

definition host_connect :: input where
  "host_connect = HostConnect ''28196'' ''ABC'' ''registerPlugin'' ''{}'' Undefined"

text \<open>All three flags fire: the host connects, the document loads, the socket opens and
  the global settings arrive.\<close>

definition ready_run :: sd_state where
  "ready_run = run sample_platform
     [host_connect, DocumentReady, SocketOpen, SocketMessage (encode (settings_frame 3))]
     constructed"

text \<open>The states along the way: the handler as constructed, after the host's call (the
  socket is connecting), and after the socket has opened.\<close>

definition constructed_state :: sd_state where
  "constructed_state = fresh\<lparr>registeredEvents :=
     [(''keyDown'', [\<lparr>l_event = ''keyDown'', l_actionName = Str ''*'', l_instance = 0,
        l_descriptor = ''onKeyDown''\<rparr>])]\<rparr>"

definition connecting_state :: sd_state where
  "connecting_state = constructed_state\<lparr>p_port := Str ''28196'', p_uuid := Str ''ABC'',
     p_registerEvent := Str ''registerPlugin'', p_info := Obj [],
     p_ws := Some \<lparr>url = ''ws://127.0.0.1:28196'', readyState = CONNECTING,
                    transmitted = []\<rparr>\<rparr>"

definition connected_state :: sd_state where
  "connected_state = connecting_state\<lparr>p_connectionReady := True,
     p_connectionReadyInvoked := True,
     p_ws := Some \<lparr>url = ''ws://127.0.0.1:28196'', readyState = OPEN,
              transmitted =
                [encode (Obj [(''event'', Str ''registerPlugin''), (''uuid'', Str ''ABC'')]),
                 encode (Obj [(''event'', Str ''getGlobalSettings''),
                   (''context'', Str ''ABC'')])]\<rparr>,
     emitted := [connectionOpened]\<rparr>"

text \<open>The state that \<open>ready_run\<close> ends in.\<close>

definition ready_state :: sd_state where
  "ready_state = connected_state\<lparr>p_documentReady := True, p_documentReadyInvoked := True,
     p_globalSettingsReady := True, p_globalSettingsInvoked := True, p_onReadyInvoked := True,
     globalSettingsCache := [Obj [(''volume'', Num 3)]],
     emitted := [documentLoaded, connectionOpened, globalSettingsAvailable, setupReady,
       (Str ''didReceiveGlobalSettings'', Str ''*'', [Val (settings_frame 3)])]\<rparr>"

text \<open>A handler whose one subscription to \<^verbatim>\<open>keyDown\<close> is filtered to
  \<^verbatim>\<open>com.foo.action1\<close>.\<close>

definition filtered_state :: sd_state where
  "filtered_state =
     state_of (eventListener ''keyDown'' ''onKeyDown'' (Str ''com.foo.action1'') 0 fresh)"

text \<open>The connected handler after the socket has closed.\<close>

definition closed_state :: sd_state where
  "closed_state = connected_state\<lparr>
     p_ws := Some \<lparr>url = ''ws://127.0.0.1:28196'', readyState = CLOSED,
              transmitted =
                [encode (Obj [(''event'', Str ''registerPlugin''), (''uuid'', Str ''ABC'')]),
                 encode (Obj [(''event'', Str ''getGlobalSettings''),
                   (''context'', Str ''ABC'')])]\<rparr>,
     emitted := [connectionOpened, (Str ''connectionClosed'', Str ''*'', [])]\<rparr>"

text \<open>A handler subscribed to \<^verbatim>\<open>globalSettingsAvailable\<close> and to
  \<^verbatim>\<open>didReceiveGlobalSettings\<close>, both with the wildcard filter.\<close>

definition settings_listeners_state :: sd_state where
  "settings_listeners_state =
     state_of (and_then
       (eventListener ''globalSettingsAvailable'' ''onAvailable'' (Str ''*'') 0 fresh)
       (eventListener ''didReceiveGlobalSettings'' ''onSettings'' (Str ''*'') 0))"

section \<open>Lemmas\<close>

subsection \<open>The readiness mechanism\<close>

lemma listener_call_flags: "flags (listener_call P cb a ps s) = flags s"
  by (simp add: flags_def listener_call_def Let_def console_call_def apply_descriptor_def)

lemma listener_call_emitted: "emitted (listener_call P cb a ps s) = emitted s"
  by (simp add: listener_call_def Let_def console_call_def apply_descriptor_def)

lemma fold_listener_call_flags:
  "flags (fold (\<lambda>cb. listener_call P cb a ps) cbs s) = flags s"
  by (induction cbs arbitrary: s) (simp_all add: listener_call_flags)

lemma fold_listener_call_emitted:
  "emitted (fold (\<lambda>cb. listener_call P cb a ps) cbs s) = emitted s"
  by (induction cbs arbitrary: s) (simp_all add: listener_call_emitted)

lemma callEvents_flags: "flags (callEvents P e a ps s) = flags s"
  by (simp add: callEvents_def Let_def fold_listener_call_flags console_call_def
      split: option.split) (simp add: flags_def)

lemma callEvents_emitted:
  "emitted (callEvents P e a ps s) =
     emitted s @ [(e, if a = Undefined then Str ''*'' else a, ps)]"
  by (simp add: callEvents_def Let_def fold_listener_call_emitted console_call_def
      split: option.split)

lemma callEvents_flag_fields:
  "p_documentReady (callEvents P e a ps s) = p_documentReady s"
  "p_connectionReady (callEvents P e a ps s) = p_connectionReady s"
  "p_globalSettingsReady (callEvents P e a ps s) = p_globalSettingsReady s"
  "p_documentReadyInvoked (callEvents P e a ps s) = p_documentReadyInvoked s"
  "p_connectionReadyInvoked (callEvents P e a ps s) = p_connectionReadyInvoked s"
  "p_globalSettingsInvoked (callEvents P e a ps s) = p_globalSettingsInvoked s"
  "p_onReadyInvoked (callEvents P e a ps s) = p_onReadyInvoked s"
  using callEvents_flags [of P e a ps s] by (simp_all add: flags_def)

lemma handleReadyState_flags:
  "flags (p_handleReadyState P s) =
     (p_documentReady s, p_connectionReady s, p_globalSettingsReady s,
      p_documentReadyInvoked s \<or> p_documentReady s,
      p_connectionReadyInvoked s \<or> p_connectionReady s,
      p_globalSettingsInvoked s \<or> p_globalSettingsReady s,
      p_onReadyInvoked s \<or>
        ((p_documentReadyInvoked s \<or> p_documentReady s)
         \<and> (p_connectionReadyInvoked s \<or> p_connectionReady s)
         \<and> (p_globalSettingsInvoked s \<or> p_globalSettingsReady s)))"
  by (auto simp add: p_handleReadyState_def Let_def callEvents_flag_fields flags_def)

lemma handleReadyState_fields:
  "p_documentReady (p_handleReadyState P s) = p_documentReady s"
  "p_connectionReady (p_handleReadyState P s) = p_connectionReady s"
  "p_globalSettingsReady (p_handleReadyState P s) = p_globalSettingsReady s"
  "p_documentReadyInvoked (p_handleReadyState P s) =
     (p_documentReadyInvoked s \<or> p_documentReady s)"
  "p_connectionReadyInvoked (p_handleReadyState P s) =
     (p_connectionReadyInvoked s \<or> p_connectionReady s)"
  "p_globalSettingsInvoked (p_handleReadyState P s) =
     (p_globalSettingsInvoked s \<or> p_globalSettingsReady s)"
  "p_onReadyInvoked (p_handleReadyState P s) =
     (p_onReadyInvoked s \<or>
        ((p_documentReadyInvoked s \<or> p_documentReady s)
         \<and> (p_connectionReadyInvoked s \<or> p_connectionReady s)
         \<and> (p_globalSettingsInvoked s \<or> p_globalSettingsReady s)))"
  using handleReadyState_flags [of P s] by (simp_all add: flags_def)

lemma handleReadyState_emitted:
  "emitted (p_handleReadyState P s) =
     emitted s
     @ (if p_connectionReady s \<and> \<not> p_connectionReadyInvoked s
        then [(Str ''connectionOpened'', Str ''*'', [])] else [])
     @ (if p_documentReady s \<and> \<not> p_documentReadyInvoked s
        then [(Str ''documentLoaded'', Str ''*'', [])] else [])
     @ (if p_globalSettingsReady s \<and> \<not> p_globalSettingsInvoked s
        then [(Str ''globalSettingsAvailable'', Str ''*'', [SettingsManagerRef])] else [])
     @ (if (p_globalSettingsInvoked s \<or> p_globalSettingsReady s)
           \<and> (p_documentReadyInvoked s \<or> p_documentReady s)
           \<and> (p_connectionReadyInvoked s \<or> p_connectionReady s)
           \<and> \<not> p_onReadyInvoked s
        then [(Str ''setupReady'', Str ''*'', [])] else [])"
  by (auto simp add: p_handleReadyState_def Let_def callEvents_flag_fields callEvents_emitted)


lemmas entry_defs = connectionOpened_def documentLoaded_def globalSettingsAvailable_def
  setupReady_def

lemma ready_inv_same:
  assumes "ready_inv s" "flags t = flags s" "emitted t = emitted s"
  shows "ready_inv t"
  using assms by (simp add: ready_inv_def flags_def before_setupReady_def)

lemma ready_inv_other:
  assumes "ready_inv s" "flags t = flags s" "emitted t = emitted s @ [x]"
    "x \<noteq> connectionOpened" "x \<noteq> documentLoaded" "x \<noteq> globalSettingsAvailable"
    "x \<noteq> setupReady"
  shows "ready_inv t"
  using assms by (auto simp add: ready_inv_def flags_def before_setupReady_def)

lemma mem_of_count: "count_list xs x = 1 \<Longrightarrow> x \<in> set xs"
  by (metis count_notin zero_neq_one)

lemma takeWhile_until_new: "y \<notin> set xs \<Longrightarrow> takeWhile (\<lambda>x. x \<noteq> y) (xs @ [y]) = xs"
  by (induction xs) auto

lemma ready_inv_conn:
  assumes "ready_inv s" "\<not> p_connectionReadyInvoked s"
  shows "ready_inv (callEvents P (Str ''connectionOpened'') Undefined []
           (s\<lparr>p_connectionReadyInvoked := True\<rparr>))"
proof -
  have "emitted (callEvents P (Str ''connectionOpened'') Undefined []
           (s\<lparr>p_connectionReadyInvoked := True\<rparr>)) = emitted s @ [connectionOpened]"
    by (simp add: callEvents_emitted connectionOpened_def)
  moreover have "setupReady \<notin> set (emitted s)"
    using assms by (auto simp add: ready_inv_def count_list_0_iff [symmetric])
  ultimately show ?thesis
    using assms
    by (simp add: ready_inv_def before_setupReady_def callEvents_flag_fields) (simp add: entry_defs)
qed

lemma ready_inv_doc:
  assumes "ready_inv s" "\<not> p_documentReadyInvoked s"
  shows "ready_inv (callEvents P (Str ''documentLoaded'') Undefined []
           (s\<lparr>p_documentReadyInvoked := True\<rparr>))"
proof -
  have "emitted (callEvents P (Str ''documentLoaded'') Undefined []
           (s\<lparr>p_documentReadyInvoked := True\<rparr>)) = emitted s @ [documentLoaded]"
    by (simp add: callEvents_emitted documentLoaded_def)
  moreover have "setupReady \<notin> set (emitted s)"
    using assms by (auto simp add: ready_inv_def count_list_0_iff [symmetric])
  ultimately show ?thesis
    using assms
    by (simp add: ready_inv_def before_setupReady_def callEvents_flag_fields) (simp add: entry_defs)
qed

lemma ready_inv_settings:
  assumes "ready_inv s" "\<not> p_globalSettingsInvoked s"
  shows "ready_inv (callEvents P (Str ''globalSettingsAvailable'') (Str ''*'')
           [SettingsManagerRef] (s\<lparr>p_globalSettingsInvoked := True\<rparr>))"
proof -
  have "emitted (callEvents P (Str ''globalSettingsAvailable'') (Str ''*'')
           [SettingsManagerRef] (s\<lparr>p_globalSettingsInvoked := True\<rparr>))
         = emitted s @ [globalSettingsAvailable]"
    by (simp add: callEvents_emitted globalSettingsAvailable_def)
  moreover have "setupReady \<notin> set (emitted s)"
    using assms by (auto simp add: ready_inv_def count_list_0_iff [symmetric])
  ultimately show ?thesis
    using assms
    by (simp add: ready_inv_def before_setupReady_def callEvents_flag_fields) (simp add: entry_defs)
qed

lemma ready_inv_setup:
  assumes "ready_inv s" "\<not> p_onReadyInvoked s"
    "p_globalSettingsInvoked s" "p_documentReadyInvoked s" "p_connectionReadyInvoked s"
  shows "ready_inv (callEvents P (Str ''setupReady'') Undefined []
           (s\<lparr>p_onReadyInvoked := True\<rparr>))"
proof -
  have e: "emitted (callEvents P (Str ''setupReady'') Undefined []
           (s\<lparr>p_onReadyInvoked := True\<rparr>)) = emitted s @ [setupReady]"
    by (simp add: callEvents_emitted setupReady_def)
  have n: "setupReady \<notin> set (emitted s)"
    using assms by (auto simp add: ready_inv_def count_list_0_iff [symmetric])
  have m: "connectionOpened \<in> set (emitted s)" "documentLoaded \<in> set (emitted s)"
    "globalSettingsAvailable \<in> set (emitted s)"
    using assms by (simp_all add: ready_inv_def mem_of_count)
  have d: "connectionOpened \<noteq> setupReady" "documentLoaded \<noteq> setupReady"
    "globalSettingsAvailable \<noteq> setupReady"
    by (simp_all add: entry_defs)
  show ?thesis
    using assms n m d
    by (simp add: ready_inv_def before_setupReady_def callEvents_flag_fields e
        takeWhile_until_new)
qed

lemma ready_inv_handleReadyState:
  assumes "ready_inv s"
  shows "ready_inv (p_handleReadyState P s)"
proof -
  define s1 where "s1 = (if p_connectionReady s \<and> \<not> p_connectionReadyInvoked s
                then callEvents P (Str ''connectionOpened'') Undefined []
                       (s\<lparr>p_connectionReadyInvoked := True\<rparr>)
                else s)"
  define s2 where "s2 = (if p_documentReady s1 \<and> \<not> p_documentReadyInvoked s1
                then callEvents P (Str ''documentLoaded'') Undefined []
                       (s1\<lparr>p_documentReadyInvoked := True\<rparr>)
                else s1)"
  define s3 where "s3 = (if p_globalSettingsReady s2 \<and> \<not> p_globalSettingsInvoked s2
                then callEvents P (Str ''globalSettingsAvailable'') (Str ''*'')
                       [SettingsManagerRef] (s2\<lparr>p_globalSettingsInvoked := True\<rparr>)
                else s2)"
  have 1: "ready_inv s1" using assms by (simp add: s1_def ready_inv_conn)
  have 2: "ready_inv s2" using 1 by (simp add: s2_def ready_inv_doc)
  have 3: "ready_inv s3" using 2 by (simp add: s3_def ready_inv_settings)
  have "p_handleReadyState P s =
      (if p_globalSettingsInvoked s3 \<and> p_documentReadyInvoked s3
            \<and> p_connectionReadyInvoked s3 \<and> \<not> p_onReadyInvoked s3
         then callEvents P (Str ''setupReady'') Undefined [] (s3\<lparr>p_onReadyInvoked := True\<rparr>)
         else s3)"
    unfolding p_handleReadyState_def Let_def s1_def s2_def s3_def by (rule refl)
  then show ?thesis using 3 by (simp add: ready_inv_setup)
qed

lemma settled_handleReadyState: "settled (p_handleReadyState P s)"
  by (auto simp add: settled_def handleReadyState_fields)

lemma settled_same: "settled s \<Longrightarrow> flags t = flags s \<Longrightarrow> settled t"
  by (simp add: settled_def flags_def)

lemma settled_quiet:
  "settled s \<Longrightarrow> emitted (p_handleReadyState P s) = emitted s"
  by (auto simp add: settled_def handleReadyState_emitted)

lemma send_quiet:
  "flags (state_of (send P e d s)) = flags s"
  "emitted (state_of (send P e d s)) = emitted s"
  by (simp_all add: send_def Let_def flags_def console_call_def
      split: option.split sum.split)

lemma resend_quiet:
  "flags (state_of (resend xs s)) = flags s \<and> emitted (state_of (resend xs s)) = emitted s"
  by (induction xs arbitrary: s) (simp_all add: flags_def split: option.split sum.split)

lemma eventListener_quiet:
  "flags (state_of (eventListener ev d a i s)) = flags s"
  "emitted (state_of (eventListener ev d a i s)) = emitted s"
  by (simp_all add: eventListener_def registerEvent_def Let_def flags_def)

lemma state_of_and_then:
  assumes "Q (state_of r)" "\<And>t. Q t \<Longrightarrow> Q (state_of (f t))"
  shows "Q (state_of (and_then r f))"
  using assms by (cases r) simp_all

lemma ready_inv_flag_update:
  "ready_inv (s\<lparr>p_connectionReady := b\<rparr>) = ready_inv s"
  "ready_inv (s\<lparr>p_documentReady := b\<rparr>) = ready_inv s"
  "ready_inv (s\<lparr>p_globalSettingsReady := b\<rparr>) = ready_inv s"
  by (simp_all add: ready_inv_def before_setupReady_def)

lemma ready_inv_send: "ready_inv s \<Longrightarrow> ready_inv (state_of (send P e d s))"
  by (erule ready_inv_same) (rule send_quiet)+

lemma ready_inv_resend: "ready_inv s \<Longrightarrow> ready_inv (state_of (resend xs s))"
  by (erule ready_inv_same) (simp_all add: resend_quiet)

lemma ready_inv_console: "ready_inv (console_call l as s) = ready_inv s"
  by (simp add: ready_inv_def before_setupReady_def console_call_def)

lemma ready_inv_open:
  assumes "ready_inv s"
  shows "ready_inv (state_of (p_open P s))"
  unfolding p_open_def
proof (intro state_of_and_then [where Q = ready_inv])
  show "ready_inv (state_of (send P (p_registerEvent s) (Obj [(''uuid'', p_uuid s)]) s))"
    using assms by (rule ready_inv_send)
next
  fix t assume "ready_inv t"
  then show "ready_inv (state_of
      (if 1 \<le> length (p_cachedEvents t)
       then resend (p_cachedEvents t)
              (if p_debug t
               then console_call LOG [Val (Str ''RESENDING CACHED EVENTS: ''),
                      Val (Arr (map Str (p_cachedEvents t)))] t
               else t)
       else Done t))"
    by (simp add: ready_inv_resend ready_inv_console)
next
  fix t assume "ready_inv t"
  then show "ready_inv (state_of
      (requestGlobalSettings P (p_handleReadyState P (t\<lparr>p_connectionReady := True\<rparr>))))"
    by (simp add: requestGlobalSettings_def ready_inv_send ready_inv_handleReadyState
        ready_inv_flag_update)
qed

lemma ready_inv_callEvents_params:
  assumes "ready_inv s" "ps \<noteq> []" "ps \<noteq> [SettingsManagerRef]"
  shows "ready_inv (callEvents P e a ps s)"
  using assms(1) callEvents_flags callEvents_emitted
  by (rule ready_inv_other) (use assms(2,3) in \<open>simp_all add: entry_defs\<close>)

lemma ready_inv_callEvents_name:
  assumes "ready_inv s" "e \<noteq> Str ''connectionOpened''" "e \<noteq> Str ''documentLoaded''"
    "e \<noteq> Str ''globalSettingsAvailable''" "e \<noteq> Str ''setupReady''"
  shows "ready_inv (callEvents P e a ps s)"
  using assms(1) callEvents_flags callEvents_emitted
  by (rule ready_inv_other) (use assms(2-) in \<open>simp_all add: entry_defs\<close>)

lemma ready_inv_cache: "ready_inv (cacheGlobalSettings v s) = ready_inv s"
  by (simp add: ready_inv_def before_setupReady_def cacheGlobalSettings_def)

lemma ready_inv_eventHandler:
  assumes "ready_inv s"
  shows "ready_inv (state_of (p_eventHandler P d s))"
  using assms unfolding p_eventHandler_def Let_def
  by (auto split: option.split sum.split intro!: state_of_and_then [where Q = ready_inv]
      simp add: ready_inv_console ready_inv_callEvents_params ready_inv_handleReadyState
        ready_inv_flag_update ready_inv_cache)

lemma ready_inv_field_update:
  "ready_inv (p_port_update f1 s) = ready_inv s"
  "ready_inv (p_uuid_update f2 s) = ready_inv s"
  "ready_inv (p_registerEvent_update f3 s) = ready_inv s"
  "ready_inv (p_info_update f4 s) = ready_inv s"
  "ready_inv (p_ws_update f5 s) = ready_inv s"
  "ready_inv (p_debug_update f6 s) = ready_inv s"
  by (simp_all add: ready_inv_def before_setupReady_def)

lemma ready_inv_connect:
  assumes "ready_inv s"
  shows "ready_inv (state_of (connectElgatoStreamDeckSocket P port uuid reg info ai s))"
  using assms
  unfolding connectElgatoStreamDeckSocket_def p_connectElgatoStreamDeckSocket_def Let_def
  by (simp add: ready_inv_field_update ready_inv_callEvents_name split: option.split)

lemma ready_inv_step:
  assumes "ready_inv s"
  shows "ready_inv (state_of (step P i s))"
proof (cases i)
  case (HostConnect port uuid reg info ai)
  then show ?thesis using assms by (simp add: ready_inv_connect)
next
  case DocumentReady
  then show ?thesis using assms
    by (simp add: docReady_callback_def ready_inv_handleReadyState ready_inv_flag_update)
next
  case SocketOpen
  then show ?thesis using assms
    by (simp add: ready_inv_open ready_inv_field_update split: option.split)
next
  case SocketClose
  then show ?thesis using assms
    by (simp add: ready_inv_callEvents_name ready_inv_field_update split: option.split)
next
  case (SocketMessage d)
  then show ?thesis using assms by (simp add: ready_inv_eventHandler split: option.split)
next
  case (CallSend e d)
  then show ?thesis using assms by (simp add: ready_inv_send)
next
  case CallEnableDebug
  then show ?thesis using assms by (simp add: enableDebug_def ready_inv_field_update)
next
  case (CallEventListener ev d a n)
  then show ?thesis using assms
    by (auto intro: ready_inv_same simp add: eventListener_quiet)
qed

lemma ready_inv_run: "ready_inv s \<Longrightarrow> ready_inv (run P is s)"
  by (induction "is" arbitrary: s) (simp_all add: ready_inv_step)

lemma settled_flag_free:
  "settled (p_port_update f1 s) = settled s"
  "settled (p_uuid_update f2 s) = settled s"
  "settled (p_registerEvent_update f3 s) = settled s"
  "settled (p_info_update f4 s) = settled s"
  "settled (p_ws_update f5 s) = settled s"
  "settled (p_debug_update f6 s) = settled s"
  "settled (console_call l as s) = settled s"
  "settled (cacheGlobalSettings v s) = settled s"
  "settled (callEvents P e a ps s) = settled s"
  by (simp_all add: settled_def console_call_def cacheGlobalSettings_def
      callEvents_flag_fields)

lemma settled_send: "settled s \<Longrightarrow> settled (state_of (send P e d s))"
  by (erule settled_same) (rule send_quiet)

lemma settled_resend: "settled s \<Longrightarrow> settled (state_of (resend xs s))"
  by (erule settled_same) (simp add: resend_quiet)

lemma settled_open:
  assumes "settled s"
  shows "settled (state_of (p_open P s))"
  unfolding p_open_def
proof (intro state_of_and_then [where Q = settled])
  show "settled (state_of (send P (p_registerEvent s) (Obj [(''uuid'', p_uuid s)]) s))"
    using assms by (rule settled_send)
next
  fix t assume "settled t"
  then show "settled (state_of
      (if 1 \<le> length (p_cachedEvents t)
       then resend (p_cachedEvents t)
              (if p_debug t
               then console_call LOG [Val (Str ''RESENDING CACHED EVENTS: ''),
                      Val (Arr (map Str (p_cachedEvents t)))] t
               else t)
       else Done t))"
    by (simp add: settled_resend settled_flag_free)
next
  fix t
  show "settled (state_of
      (requestGlobalSettings P (p_handleReadyState P (t\<lparr>p_connectionReady := True\<rparr>))))"
    by (simp add: requestGlobalSettings_def settled_send settled_handleReadyState)
qed

lemma settled_eventHandler:
  assumes "settled s"
  shows "settled (state_of (p_eventHandler P d s))"
  using assms unfolding p_eventHandler_def Let_def
  by (auto split: option.split sum.split intro!: state_of_and_then [where Q = settled]
      simp add: settled_flag_free settled_handleReadyState)

lemma settled_connect:
  assumes "settled s"
  shows "settled (state_of (connectElgatoStreamDeckSocket P port uuid reg info ai s))"
  using assms
  unfolding connectElgatoStreamDeckSocket_def p_connectElgatoStreamDeckSocket_def Let_def
  by (simp add: settled_flag_free split: option.split)

lemma settled_step:
  assumes "settled s"
  shows "settled (state_of (step P i s))"
proof (cases i)
  case (HostConnect port uuid reg info ai)
  then show ?thesis using assms by (simp add: settled_connect)
next
  case DocumentReady
  then show ?thesis by (simp add: docReady_callback_def settled_handleReadyState)
next
  case SocketOpen
  then show ?thesis using assms
    by (simp add: settled_open settled_flag_free split: option.split)
next
  case SocketClose
  then show ?thesis using assms by (simp add: settled_flag_free split: option.split)
next
  case (SocketMessage d)
  then show ?thesis using assms by (simp add: settled_eventHandler split: option.split)
next
  case (CallSend e d)
  then show ?thesis using assms by (simp add: settled_send)
next
  case CallEnableDebug
  then show ?thesis using assms by (simp add: enableDebug_def settled_flag_free)
next
  case (CallEventListener ev d a n)
  then show ?thesis using assms
    by (auto intro: settled_same simp add: eventListener_quiet)
qed

lemma settled_run: "settled s \<Longrightarrow> settled (run P is s)"
  by (induction "is" arbitrary: s) (simp_all add: settled_step)

lemma register_all_quiet:
  "flags (state_of (register_all evs this s)) = flags s
   \<and> emitted (state_of (register_all evs this s)) = emitted s"
proof (induction evs arbitrary: s)
  case Nil
  then show ?case by simp
next
  case (Cons x evs)
  obtain ev d where x: "x = (ev, d)" by (cases x)
  show ?case
    using Cons [of "registerEvent ev
       \<lparr>l_event = ev, l_actionName = Str ''*'', l_instance = this, l_descriptor = d\<rparr> s"]
    by (simp add: x eventListener_def registerEvent_def Let_def flags_def)
qed

lemma constructor_inv:
  "ready_inv (state_of (constructor evs this))" "settled (state_of (constructor evs this))"
proof -
  have f: "ready_inv fresh" "settled fresh"
    by (simp_all add: ready_inv_def settled_def fresh_def entry_defs)
  show "ready_inv (state_of (constructor evs this))"
    unfolding constructor_def by (rule ready_inv_same [OF f(1)]) (simp_all add: register_all_quiet)
  show "settled (state_of (constructor evs this))"
    unfolding constructor_def by (rule settled_same [OF f(2)]) (simp add: register_all_quiet)
qed

lemma ready_inv_counts:
  assumes "ready_inv s"
  shows "count_list (emitted s) connectionOpened = (if p_connectionReadyInvoked s then 1 else 0)"
    "count_list (emitted s) documentLoaded = (if p_documentReadyInvoked s then 1 else 0)"
    "count_list (emitted s) globalSettingsAvailable =
       (if p_globalSettingsInvoked s then 1 else 0)"
    "count_list (emitted s) setupReady = (if p_onReadyInvoked s then 1 else 0)"
  using assms unfolding ready_inv_def by blast+

lemma ready_inv_once:
  assumes "ready_inv s"
  shows "count_list (emitted s) connectionOpened \<le> 1"
    "count_list (emitted s) documentLoaded \<le> 1"
    "count_list (emitted s) globalSettingsAvailable \<le> 1"
    "count_list (emitted s) setupReady \<le> 1"
  by (simp_all add: ready_inv_counts [OF assms])

lemma ready_inv_order:
  assumes "ready_inv s"
  shows "setupReady \<in> set (emitted s) \<longrightarrow>
         connectionOpened \<in> set (before_setupReady s)
         \<and> documentLoaded \<in> set (before_setupReady s)
         \<and> globalSettingsAvailable \<in> set (before_setupReady s)"
  using assms unfolding ready_inv_def by blast

lemma ready_inv_complete:
  assumes "ready_inv s" "settled s"
  shows "p_documentReady s \<and> p_connectionReady s \<and> p_globalSettingsReady s \<longrightarrow>
         count_list (emitted s) setupReady = 1"
proof -
  have "p_documentReady s \<and> p_connectionReady s \<and> p_globalSettingsReady s \<longrightarrow>
      p_onReadyInvoked s"
    using assms(2) unfolding settled_def by blast
  then show ?thesis by (simp add: ready_inv_counts [OF assms(1)])
qed

lemma settled_retrigger:
  assumes "settled s"
  shows "p_documentReady s \<longrightarrow> emitted (state_of (step P DocumentReady s)) = emitted s"
    "p_connectionReady s \<longrightarrow>
       emitted (p_handleReadyState P (s\<lparr>p_connectionReady := True\<rparr>)) = emitted s"
    "p_globalSettingsReady s \<longrightarrow>
       emitted (p_handleReadyState P (s\<lparr>p_globalSettingsReady := True\<rparr>)) = emitted s"
  using assms
  by (auto simp add: docReady_callback_def settled_def handleReadyState_emitted)

subsection \<open>What each routine leaves alone\<close>

lemma listener_call_insensitive:
  assumes "\<And>s c. f (s\<lparr>console := c\<rparr>) = f s" "\<And>s i. f (s\<lparr>invoked := i\<rparr>) = f s"
  shows "f (listener_call P cb a ps s) = f s"
  by (simp add: listener_call_def Let_def console_call_def apply_descriptor_def assms)

lemma fold_listener_call_insensitive:
  assumes "\<And>s c. f (s\<lparr>console := c\<rparr>) = f s" "\<And>s i. f (s\<lparr>invoked := i\<rparr>) = f s"
  shows "f (fold (\<lambda>cb. listener_call P cb a ps) cbs s) = f s"
  by (induction cbs arbitrary: s) (simp_all add: listener_call_insensitive assms)

lemma callEvents_insensitive:
  assumes "\<And>s c. f (s\<lparr>console := c\<rparr>) = f s" "\<And>s i. f (s\<lparr>invoked := i\<rparr>) = f s"
    "\<And>s e. f (s\<lparr>emitted := e\<rparr>) = f s"
  shows "f (callEvents P e a ps s) = f s"
  by (simp add: callEvents_def Let_def console_call_def fold_listener_call_insensitive assms
      split: option.split)

lemma handleReadyState_insensitive:
  assumes "\<And>s c. f (s\<lparr>console := c\<rparr>) = f s" "\<And>s i. f (s\<lparr>invoked := i\<rparr>) = f s"
    "\<And>s e. f (s\<lparr>emitted := e\<rparr>) = f s"
    "\<And>s b. f (s\<lparr>p_connectionReadyInvoked := b\<rparr>) = f s"
    "\<And>s b. f (s\<lparr>p_documentReadyInvoked := b\<rparr>) = f s"
    "\<And>s b. f (s\<lparr>p_globalSettingsInvoked := b\<rparr>) = f s"
    "\<And>s b. f (s\<lparr>p_onReadyInvoked := b\<rparr>) = f s"
  shows "f (p_handleReadyState P s) = f s"
  by (simp add: p_handleReadyState_def Let_def callEvents_insensitive assms)

lemma callEvents_keeps:
  "registeredEvents (callEvents P e a ps s) = registeredEvents s"
  "globalSettingsCache (callEvents P e a ps s) = globalSettingsCache s"
  "p_ws (callEvents P e a ps s) = p_ws s"
  "p_cachedEvents (callEvents P e a ps s) = p_cachedEvents s"
  "p_debug (callEvents P e a ps s) = p_debug s"
  "p_uuid (callEvents P e a ps s) = p_uuid s"
  "p_registerEvent (callEvents P e a ps s) = p_registerEvent s"
  "p_port (callEvents P e a ps s) = p_port s"
  by (rule callEvents_insensitive; simp)+

lemma handleReadyState_keeps:
  "registeredEvents (p_handleReadyState P s) = registeredEvents s"
  "globalSettingsCache (p_handleReadyState P s) = globalSettingsCache s"
  "p_ws (p_handleReadyState P s) = p_ws s"
  "p_cachedEvents (p_handleReadyState P s) = p_cachedEvents s"
  "p_debug (p_handleReadyState P s) = p_debug s"
  "p_uuid (p_handleReadyState P s) = p_uuid s"
  "p_registerEvent (p_handleReadyState P s) = p_registerEvent s"
  "p_port (p_handleReadyState P s) = p_port s"
  by (rule handleReadyState_insensitive; simp)+

subsection \<open>The sample run\<close>

lemma sample_states:
  "constructed = constructed_state"
  "run sample_platform [host_connect] constructed = connecting_state"
  "run sample_platform [host_connect, SocketOpen] constructed = connected_state"
  "ready_run = ready_state"
  "run sample_platform [host_connect, SocketOpen, SocketClose] constructed = closed_state"
  by code_simp+

lemma sample_parse:
  "JSON_parse sample_platform (encode (settings_frame 7)) = Some (settings_frame 7)"
  "JSON_parse sample_platform (encode (keyDown_frame (Str ''com.foo.action1'')))
     = Some (keyDown_frame (Str ''com.foo.action1''))"
  "JSON_parse sample_platform (encode (keyDown_frame (Str ''com.foo.action2'')))
     = Some (keyDown_frame (Str ''com.foo.action2''))"
  "JSON_parse sample_platform (encode keyDown_global) = Some keyDown_global"
  by code_simp+

subsection \<open>Flags are never reset\<close>

lemma flags_kept_refl: "flags_kept s s"
  by (simp add: flags_kept_def)

lemma flags_kept_same: "flags_kept s t \<Longrightarrow> flags u = flags t \<Longrightarrow> flags_kept s u"
  by (simp add: flags_kept_def flags_def)

lemma flags_kept_handle:
  "flags_kept s t \<Longrightarrow> flags_kept s (p_handleReadyState P t)"
  by (simp add: flags_kept_def handleReadyState_fields)

lemma flags_kept_free:
  "flags_kept s (p_port_update f1 t) = flags_kept s t"
  "flags_kept s (p_uuid_update f2 t) = flags_kept s t"
  "flags_kept s (p_registerEvent_update f3 t) = flags_kept s t"
  "flags_kept s (p_info_update f4 t) = flags_kept s t"
  "flags_kept s (p_ws_update f5 t) = flags_kept s t"
  "flags_kept s (p_debug_update f6 t) = flags_kept s t"
  "flags_kept s (console_call l as t) = flags_kept s t"
  "flags_kept s (cacheGlobalSettings v t) = flags_kept s t"
  "flags_kept s (callEvents P e a ps t) = flags_kept s t"
  by (simp_all add: flags_kept_def console_call_def cacheGlobalSettings_def
      callEvents_flag_fields)

lemma flags_kept_set:
  "flags_kept s t \<Longrightarrow> flags_kept s (t\<lparr>p_documentReady := True\<rparr>)"
  "flags_kept s t \<Longrightarrow> flags_kept s (t\<lparr>p_connectionReady := True\<rparr>)"
  "flags_kept s t \<Longrightarrow> flags_kept s (t\<lparr>p_globalSettingsReady := True\<rparr>)"
  by (simp_all add: flags_kept_def)

lemma flags_kept_send: "flags_kept s t \<Longrightarrow> flags_kept s (state_of (send P e d t))"
  by (erule flags_kept_same) (rule send_quiet)

lemma flags_kept_resend: "flags_kept s t \<Longrightarrow> flags_kept s (state_of (resend xs t))"
  by (erule flags_kept_same) (simp add: resend_quiet)

lemma flags_kept_open:
  assumes "flags_kept s t"
  shows "flags_kept s (state_of (p_open P t))"
  unfolding p_open_def
proof (intro state_of_and_then [where Q = "flags_kept s"])
  show "flags_kept s (state_of (send P (p_registerEvent t) (Obj [(''uuid'', p_uuid t)]) t))"
    using assms by (rule flags_kept_send)
next
  fix u assume "flags_kept s u"
  then show "flags_kept s (state_of
      (if 1 \<le> length (p_cachedEvents u)
       then resend (p_cachedEvents u)
              (if p_debug u
               then console_call LOG [Val (Str ''RESENDING CACHED EVENTS: ''),
                      Val (Arr (map Str (p_cachedEvents u)))] u
               else u)
       else Done u))"
    by (simp add: flags_kept_resend flags_kept_free)
next
  fix u assume "flags_kept s u"
  then show "flags_kept s (state_of
      (requestGlobalSettings P (p_handleReadyState P (u\<lparr>p_connectionReady := True\<rparr>))))"
    by (simp add: requestGlobalSettings_def flags_kept_send flags_kept_handle flags_kept_set)
qed

lemma flags_kept_eventHandler:
  assumes "flags_kept s t"
  shows "flags_kept s (state_of (p_eventHandler P d t))"
  using assms unfolding p_eventHandler_def Let_def
  by (auto split: option.split sum.split intro!: state_of_and_then [where Q = "flags_kept s"]
      simp add: flags_kept_free flags_kept_handle flags_kept_set)

lemma flags_kept_connect:
  assumes "flags_kept s t"
  shows "flags_kept s (state_of (connectElgatoStreamDeckSocket P port uuid reg info ai t))"
  using assms
  unfolding connectElgatoStreamDeckSocket_def p_connectElgatoStreamDeckSocket_def Let_def
  by (simp add: flags_kept_free split: option.split)

lemma flags_kept_step:
  assumes "flags_kept s t"
  shows "flags_kept s (state_of (step P i t))"
proof (cases i)
  case (HostConnect port uuid reg info ai)
  then show ?thesis using assms by (simp add: flags_kept_connect)
next
  case DocumentReady
  then show ?thesis using assms
    by (simp add: docReady_callback_def flags_kept_handle flags_kept_set)
next
  case SocketOpen
  then show ?thesis using assms
    by (simp add: flags_kept_open flags_kept_free split: option.split)
next
  case SocketClose
  then show ?thesis using assms by (simp add: flags_kept_free split: option.split)
next
  case (SocketMessage d)
  then show ?thesis using assms by (simp add: flags_kept_eventHandler split: option.split)
next
  case (CallSend e d)
  then show ?thesis using assms by (simp add: flags_kept_send)
next
  case CallEnableDebug
  then show ?thesis using assms by (simp add: enableDebug_def flags_kept_free)
next
  case (CallEventListener ev d a n)
  then show ?thesis using assms
    by (auto intro: flags_kept_same simp add: eventListener_quiet)
qed

lemma flags_kept_run: "flags_kept s t \<Longrightarrow> flags_kept s (run P is t)"
  by (induction "is" arbitrary: t) (simp_all add: flags_kept_step)

subsection \<open>Dispatch\<close>

lemma listener_call_invoked:
  "invoked (listener_call P cb a ps s) =
     invoked s @
       (if \<not> truthy a \<or> strict_eq (l_actionName cb) (Str ''*'')
           \<or> strict_eq (l_actionName cb) a \<or> strict_eq a (Str ''*'')
        then [(l_descriptor cb, l_instance cb, ps)] else [])"
  by (simp add: listener_call_def Let_def console_call_def apply_descriptor_def fixVariant_def)

lemma fold_listener_call_invoked:
  "invoked (fold (\<lambda>cb. listener_call P cb a ps) cbs s) =
     invoked s @ concat (map (\<lambda>cb.
       if \<not> truthy a \<or> strict_eq (l_actionName cb) (Str ''*'')
           \<or> strict_eq (l_actionName cb) a \<or> strict_eq a (Str ''*'')
       then [(l_descriptor cb, l_instance cb, ps)] else []) cbs)"
  by (induction cbs arbitrary: s) (simp_all add: listener_call_invoked)

lemma callEvents_invoked:
  assumes "Map_get (registeredEvents s) e = Some cbs" "a \<noteq> Undefined"
  shows "invoked (callEvents P e a ps s) =
     invoked s @ concat (map (\<lambda>cb.
       if \<not> truthy a \<or> strict_eq (l_actionName cb) (Str ''*'')
           \<or> strict_eq (l_actionName cb) a \<or> strict_eq a (Str ''*'')
       then [(l_descriptor cb, l_instance cb, ps)] else []) cbs)"
  using assms
  by (simp add: callEvents_def Let_def fold_listener_call_invoked console_call_def)

lemma strict_eq_Str: "strict_eq (Str f) b = (b = Str f)" "strict_eq b (Str f) = (b = Str f)"
  by (cases b; auto)+

lemma coalesce_cases:
  "coalesce a (Str ''*'') \<noteq> Undefined"
  "\<not> truthy (coalesce a (Str ''*'')) \<or> coalesce a (Str ''*'') = Str ''*''
     \<longleftrightarrow> a = Undefined \<or> a = Null \<or> \<not> truthy a \<or> a = Str ''*''"
  by (cases a; simp add: coalesce_def)+

lemma eventHandler_settings:
  assumes "JSON_parse P ev_data = Some frame"
    "get_prop frame ''event'' = Inr (Str ''didReceiveGlobalSettings'')"
    "get_prop frame ''action'' = Inr action"
    "get_prop frame ''payload'' = Inr payload"
    "get_prop payload ''settings'' = Inr settings"
  shows "p_eventHandler P ev_data s =
     Done (callEvents P (Str ''didReceiveGlobalSettings'') (coalesce action (Str ''*''))
       [Val frame]
       (p_handleReadyState P
         ((cacheGlobalSettings settings
            (if p_debug s
             then console_call LOG [Val (Str (''RECEIVE '' @ ''didReceiveGlobalSettings'')),
                    Val frame, MessageEventRef ev_data] s
             else s))\<lparr>p_globalSettingsReady := True\<rparr>)))"
  using assms by (simp add: p_eventHandler_def Let_def)

lemma eventHandler_other:
  assumes "JSON_parse P ev_data = Some frame"
    "get_prop frame ''event'' = Inr event"
    "get_prop frame ''action'' = Inr action"
    "event \<noteq> Str ''didReceiveGlobalSettings''"
  shows "p_eventHandler P ev_data s =
     Done (callEvents P event (coalesce action (Str ''*'')) [Val frame]
       (if p_debug s
        then console_call LOG [Val (Str (''RECEIVE '' @ ToString event)),
               Val frame, MessageEventRef ev_data] s
        else s))"
  using assms by (simp add: p_eventHandler_def Let_def strict_eq_Str)

lemma fires_iff:
  assumes "l_actionName cb = Str f"
  shows "(\<not> truthy (coalesce a (Str ''*'')) \<or> strict_eq (l_actionName cb) (Str ''*'')
          \<or> strict_eq (l_actionName cb) (coalesce a (Str ''*''))
          \<or> strict_eq (coalesce a (Str ''*'')) (Str ''*''))
     \<longleftrightarrow> (a = Undefined \<or> a = Null \<or> \<not> truthy a \<or> a = Str ''*''
          \<or> l_actionName cb = Str ''*'' \<or> l_actionName cb = a)"
  using assms by (cases a) (auto simp add: coalesce_def)

lemma callEvents_invoked_params:
  "\<exists>xs. invoked (callEvents P e a ps s) = invoked s @ xs \<and> (\<forall>x\<in>set xs. snd (snd x) = ps)"
proof (cases "Map_get (registeredEvents s) e")
  case None
  then have "invoked (callEvents P e a ps s) = invoked s @ []"
    by (simp add: callEvents_def Let_def console_call_def)
  then show ?thesis by (intro exI [of _ "[]"]) simp
next
  case (Some cbs)
  define a' where "a' = (if a = Undefined then Str ''*'' else a)"
  have "invoked (callEvents P e a ps s) = invoked s @ concat (map (\<lambda>cb.
       if \<not> truthy a' \<or> strict_eq (l_actionName cb) (Str ''*'')
           \<or> strict_eq (l_actionName cb) a' \<or> strict_eq a' (Str ''*'')
       then [(l_descriptor cb, l_instance cb, ps)] else []) cbs)"
    using Some
    by (simp add: callEvents_def Let_def fold_listener_call_invoked console_call_def a'_def)
  moreover have "\<forall>x\<in>set (concat (map (\<lambda>cb.
       if \<not> truthy a' \<or> strict_eq (l_actionName cb) (Str ''*'')
           \<or> strict_eq (l_actionName cb) a' \<or> strict_eq a' (Str ''*'')
       then [(l_descriptor cb, l_instance cb, ps)] else []) cbs)). snd (snd x) = ps"
    by (auto split: if_splits)
  ultimately show ?thesis by blast
qed

lemma guarded_callEvents_invoked:
  assumes "invoked t = invoked s"
  shows "\<exists>xs. invoked (if c then callEvents P e a ps t else s) = invoked s @ xs
     \<and> (\<forall>x\<in>set xs. snd (snd x) = ps)"
proof (cases c)
  case True
  then show ?thesis using callEvents_invoked_params [of P e a ps t] assms by simp
next
  case False
  then show ?thesis by (intro exI [of _ "[]"]) simp
qed

lemma handleReadyState_invoked:
  "\<exists>xs. invoked (p_handleReadyState P s) = invoked s @ xs
     \<and> (\<forall>x\<in>set xs. snd (snd x) = [] \<or> snd (snd x) = [SettingsManagerRef])"
proof -
  define s1 where "s1 = (if p_connectionReady s \<and> \<not> p_connectionReadyInvoked s
                then callEvents P (Str ''connectionOpened'') Undefined []
                       (s\<lparr>p_connectionReadyInvoked := True\<rparr>)
                else s)"
  define s2 where "s2 = (if p_documentReady s1 \<and> \<not> p_documentReadyInvoked s1
                then callEvents P (Str ''documentLoaded'') Undefined []
                       (s1\<lparr>p_documentReadyInvoked := True\<rparr>)
                else s1)"
  define s3 where "s3 = (if p_globalSettingsReady s2 \<and> \<not> p_globalSettingsInvoked s2
                then callEvents P (Str ''globalSettingsAvailable'') (Str ''*'')
                       [SettingsManagerRef] (s2\<lparr>p_globalSettingsInvoked := True\<rparr>)
                else s2)"
  define s4 where "s4 = (if p_globalSettingsInvoked s3 \<and> p_documentReadyInvoked s3
            \<and> p_connectionReadyInvoked s3 \<and> \<not> p_onReadyInvoked s3
         then callEvents P (Str ''setupReady'') Undefined [] (s3\<lparr>p_onReadyInvoked := True\<rparr>)
         else s3)"
  have e: "p_handleReadyState P s = s4"
    unfolding p_handleReadyState_def Let_def s1_def s2_def s3_def s4_def by (rule refl)
  have u: "invoked (s\<lparr>p_connectionReadyInvoked := True\<rparr>) = invoked s"
    "invoked (s1\<lparr>p_documentReadyInvoked := True\<rparr>) = invoked s1"
    "invoked (s2\<lparr>p_globalSettingsInvoked := True\<rparr>) = invoked s2"
    "invoked (s3\<lparr>p_onReadyInvoked := True\<rparr>) = invoked s3"
    by simp_all
  obtain x1 where 1: "invoked s1 = invoked s @ x1" "\<forall>x\<in>set x1. snd (snd x) = []"
    unfolding s1_def using guarded_callEvents_invoked [OF u(1)] by blast
  obtain x2 where 2: "invoked s2 = invoked s1 @ x2" "\<forall>x\<in>set x2. snd (snd x) = []"
    unfolding s2_def using guarded_callEvents_invoked [OF u(2)] by blast
  obtain x3 where 3: "invoked s3 = invoked s2 @ x3"
    "\<forall>x\<in>set x3. snd (snd x) = [SettingsManagerRef]"
    unfolding s3_def using guarded_callEvents_invoked [OF u(3)] by blast
  obtain x4 where 4: "invoked s4 = invoked s3 @ x4" "\<forall>x\<in>set x4. snd (snd x) = []"
    unfolding s4_def using guarded_callEvents_invoked [OF u(4)] by blast
  have "invoked s4 = invoked s @ (x1 @ x2 @ x3 @ x4)"
    by (simp add: 1 2 3 4)
  moreover have "\<forall>x\<in>set (x1 @ x2 @ x3 @ x4).
      snd (snd x) = [] \<or> snd (snd x) = [SettingsManagerRef]"
    using 1(2) 2(2) 3(2) 4(2) by auto
  ultimately show ?thesis unfolding e by blast
qed

subsection \<open>The membership test\<close>

lemma global_only_indices: "map string_of_nat [0..<length global_only] = [''0'', ''1'', ''2'']"
  by code_simp

lemma mute_console_call: "mute (console_call l as s) = mute s"
  by (simp add: mute_def console_call_def)

lemma mute_apply_descriptor: "mute (apply_descriptor cb ps s) = apply_descriptor cb ps (mute s)"
  by (simp add: mute_def apply_descriptor_def)

lemma mute_idem: "mute (mute s) = mute s"
  by (simp add: mute_def)

lemma mute_listener_call:
  "mute (listener_call P cb a ps s) = mute (listener_call P cb a ps (mute s))"
  by (simp add: listener_call_def Let_def mute_console_call mute_apply_descriptor mute_idem
      if_distrib [of mute])

lemma mute_fold_listener_call:
  "mute (fold (\<lambda>cb. listener_call P cb a ps) cbs s)
     = mute (fold (\<lambda>cb. listener_call P cb a ps) cbs (mute s))"
proof (induction cbs arbitrary: s)
  case Nil
  show ?case by (simp add: mute_def)
next
  case (Cons cb cbs)
  have "mute (fold (\<lambda>cb. listener_call P cb a ps) (cb # cbs) s)
      = mute (fold (\<lambda>cb. listener_call P cb a ps) cbs (mute (listener_call P cb a ps s)))"
    using Cons [of "listener_call P cb a ps s"] by simp
  also have "\<dots> = mute (fold (\<lambda>cb. listener_call P cb a ps) cbs
      (mute (listener_call P cb a ps (mute s))))"
    by (simp only: mute_listener_call [of P cb a ps s])
  also have "\<dots> = mute (fold (\<lambda>cb. listener_call P cb a ps) (cb # cbs) (mute s))"
    using Cons [of "listener_call P cb a ps (mute s)"] by simp
  finally show ?case .
qed

lemma mute_callEvents:
  "mute (callEvents P e a ps s) = mute (callEvents_unguarded P e a ps s)"
proof -
  define a' where "a' = (if a = Undefined then Str ''*'' else a)"
  define s1 where "s1 = (if js_in P e global_only
                then console_call LOG [Val (Str ''event manager: callEvents''),
                       Val (Str ''eventName:''), Val e,
                       Val (Str ''actionName:''), Val a',
                       Val (Str ''params:''), ArrayOf ps] s
                else s)"
  define t where "t = s1\<lparr>emitted := emitted s1 @ [(e, a', ps)]\<rparr>"
  define u where "u = s\<lparr>emitted := emitted s @ [(e, a', ps)]\<rparr>"
  have tu: "mute t = mute u" "registeredEvents t = registeredEvents u"
    by (simp_all add: t_def u_def s1_def mute_def console_call_def)
  have c: "callEvents P e a ps s =
      (case Map_get (registeredEvents t) e of None \<Rightarrow> t
       | Some cbs \<Rightarrow> fold (\<lambda>cb. listener_call P cb a' ps) cbs t)"
    unfolding callEvents_def Let_def t_def s1_def a'_def by (rule refl)
  have d: "callEvents_unguarded P e a ps s =
      (case Map_get (registeredEvents u) e of None \<Rightarrow> u
       | Some cbs \<Rightarrow> fold (\<lambda>cb. listener_call P cb a' ps) cbs u)"
    unfolding callEvents_unguarded_def Let_def u_def a'_def by (rule refl)
  show ?thesis
  proof (cases "Map_get (registeredEvents u) e")
    case None
    then show ?thesis by (simp add: c d tu)
  next
    case (Some cbs)
    have "mute (fold (\<lambda>cb. listener_call P cb a' ps) cbs t)
        = mute (fold (\<lambda>cb. listener_call P cb a' ps) cbs (mute t))"
      by (rule mute_fold_listener_call)
    also have "\<dots> = mute (fold (\<lambda>cb. listener_call P cb a' ps) cbs (mute u))"
      by (simp only: tu(1))
    also have "\<dots> = mute (fold (\<lambda>cb. listener_call P cb a' ps) cbs u)"
      by (rule mute_fold_listener_call [symmetric])
    finally show ?thesis by (simp add: c d tu(2) Some)
  qed
qed

subsection \<open>The outgoing queue\<close>

lemma resend_open:
  assumes "p_ws s = Some w" "readyState w = OPEN"
  shows "resend xs s = Done (s\<lparr>p_ws := Some (w\<lparr>transmitted := transmitted w @ xs\<rparr>)\<rparr>)"
  using assms
proof (induction xs arbitrary: s w)
  case Nil
  then show ?case by simp
next
  case (Cons x xs)
  have "resend (x # xs) s
      = resend xs (s\<lparr>p_ws := Some (w\<lparr>transmitted := transmitted w @ [x]\<rparr>)\<rparr>)"
    using Cons.prems by simp
  also have "\<dots> = Done (s\<lparr>p_ws := Some (w\<lparr>transmitted := transmitted w @ x # xs\<rparr>)\<rparr>)"
    by (subst Cons.IH [of _ "w\<lparr>transmitted := transmitted w @ [x]\<rparr>"])
      (simp_all add: Cons.prems)
  finally show ?case .
qed

lemma open_flushes_queue:
  assumes "p_ws s = Some w" "readyState w = CONNECTING"
  shows "\<exists>s'. step P SocketOpen s = Done s'
     \<and> p_ws s' = Some (w\<lparr>readyState := OPEN, transmitted := transmitted w
          @ [JSON_stringify P
               (Obj (spread_into [(''event'', p_registerEvent s)] (Obj [(''uuid'', p_uuid s)])))]
          @ p_cachedEvents s
          @ [JSON_stringify P
               (Obj (spread_into [(''event'', Str ''getGlobalSettings'')]
                  (Obj [(''context'', p_uuid s)])))]\<rparr>)"
  using assms
  by (auto simp add: p_open_def send_def Let_def resend_open requestGlobalSettings_def
      handleReadyState_keeps console_call_def Suc_le_eq)

lemma sends_before_connect_are_queued:
  assumes "p_ws s = None"
  shows "p_ws (run P (map (\<lambda>(e, d). CallSend e d) ms) s) = None
     \<and> p_cachedEvents (run P (map (\<lambda>(e, d). CallSend e d) ms) s)
         = p_cachedEvents s
           @ map (\<lambda>(e, d). JSON_stringify P (Obj (spread_into [(''event'', e)] d))) ms"
  using assms
proof (induction ms arbitrary: s)
  case Nil
  then show ?case by simp
next
  case (Cons m ms)
  obtain e d where m: "m = (e, d)" by (cases m)
  have 1: "p_ws (state_of (send P e d s)) = None"
    "p_cachedEvents (state_of (send P e d s))
       = p_cachedEvents s @ [JSON_stringify P (Obj (spread_into [(''event'', e)] d))]"
    using Cons.prems by (simp_all add: send_def Let_def console_call_def)
  show ?case
    using Cons.IH [OF 1(1)] by (simp add: m 1(2))
qed

lemma run_append: "run P (xs @ ys) s = run P ys (run P xs s)"
  by (induction xs arbitrary: s) simp_all

lemma sends_when_open_are_transmitted:
  assumes "p_ws s = Some w" "readyState w = OPEN"
  shows "p_ws (run P (map (\<lambda>(e, d). CallSend e d) ms) s)
     = Some (w\<lparr>transmitted := transmitted w
          @ map (\<lambda>(e, d). JSON_stringify P (Obj (spread_into [(''event'', e)] d))) ms\<rparr>)"
  using assms
proof (induction ms arbitrary: s w)
  case Nil
  then show ?case by simp
next
  case (Cons m ms)
  obtain e d where m: "m = (e, d)" by (cases m)
  define w' where "w' = w\<lparr>transmitted := transmitted w
      @ [JSON_stringify P (Obj (spread_into [(''event'', e)] d))]\<rparr>"
  have 1: "p_ws (state_of (send P e d s)) = Some w'" "readyState w' = OPEN"
    using Cons.prems by (simp_all add: send_def Let_def console_call_def w'_def)
  show ?case
    using Cons.IH [OF 1] by (simp add: m w'_def)
qed

lemma host_connect_creates_socket:
  assumes "JSON_parse P info = Some i" "WebSocket_accepts P (''ws://127.0.0.1:'' @ port)"
  shows "\<exists>s'. step P (HostConnect port uuid reg info actionInfo) s = Done s'
     \<and> p_ws s' = Some (new_WebSocket (''ws://127.0.0.1:'' @ port))
     \<and> p_cachedEvents s' = p_cachedEvents s
     \<and> p_uuid s' = Str uuid \<and> p_registerEvent s' = Str reg"
  using assms
  by (simp add: connectElgatoStreamDeckSocket_def p_connectElgatoStreamDeckSocket_def Let_def
      callEvents_keeps)

lemma fifo_delivery:
  assumes "p_ws s = None" "p_cachedEvents s = []"
    and "JSON_parse P info = Some i" "WebSocket_accepts P (''ws://127.0.0.1:'' @ port)"
  shows "map_option transmitted (p_ws (run P
       (map (\<lambda>(e, d). CallSend e d) before
        @ [HostConnect port uuid reg info actionInfo, SocketOpen]
        @ map (\<lambda>(e, d). CallSend e d) after) s))
     = Some ([JSON_stringify P (Obj (spread_into [(''event'', Str reg)]
                (Obj [(''uuid'', Str uuid)])))]
          @ map (\<lambda>(e, d). JSON_stringify P (Obj (spread_into [(''event'', e)] d))) before
          @ [JSON_stringify P (Obj (spread_into [(''event'', Str ''getGlobalSettings'')]
                (Obj [(''context'', Str uuid)])))]
          @ map (\<lambda>(e, d). JSON_stringify P (Obj (spread_into [(''event'', e)] d))) after)"
proof -
  define s1 where "s1 = run P (map (\<lambda>(e, d). CallSend e d) before) s"
  have 1: "p_ws s1 = None"
    "p_cachedEvents s1
       = map (\<lambda>(e, d). JSON_stringify P (Obj (spread_into [(''event'', e)] d))) before"
    using sends_before_connect_are_queued [OF assms(1), of P before] assms(2)
    by (simp_all add: s1_def)
  obtain s2 where 2: "step P (HostConnect port uuid reg info actionInfo) s1 = Done s2"
    "p_ws s2 = Some (new_WebSocket (''ws://127.0.0.1:'' @ port))"
    "p_cachedEvents s2 = p_cachedEvents s1" "p_uuid s2 = Str uuid" "p_registerEvent s2 = Str reg"
    using host_connect_creates_socket [OF assms(3,4)] by blast
  have c: "readyState (new_WebSocket (''ws://127.0.0.1:'' @ port)) = CONNECTING"
    "transmitted (new_WebSocket (''ws://127.0.0.1:'' @ port)) = []"
    by (simp_all add: new_WebSocket_def)
  obtain s3 where 3: "step P SocketOpen s2 = Done s3"
    "p_ws s3 = Some ((new_WebSocket (''ws://127.0.0.1:'' @ port))\<lparr>readyState := OPEN,
        transmitted := transmitted (new_WebSocket (''ws://127.0.0.1:'' @ port))
          @ [JSON_stringify P
               (Obj (spread_into [(''event'', p_registerEvent s2)] (Obj [(''uuid'', p_uuid s2)])))]
          @ p_cachedEvents s2
          @ [JSON_stringify P
               (Obj (spread_into [(''event'', Str ''getGlobalSettings'')]
                  (Obj [(''context'', p_uuid s2)])))]\<rparr>)"
    using open_flushes_queue [OF 2(2) c(1)] by blast
  have r: "run P (map (\<lambda>(e, d). CallSend e d) before
        @ [HostConnect port uuid reg info actionInfo, SocketOpen]
        @ map (\<lambda>(e, d). CallSend e d) after) s
      = run P (map (\<lambda>(e, d). CallSend e d) after) s3"
    by (simp only: run_append s1_def [symmetric] run.simps 2(1) 3(1) state_of.simps)
  show ?thesis
    unfolding r
    by (subst sends_when_open_are_transmitted [OF 3(2)])
      (simp_all add: new_WebSocket_def 2 1)
qed

section \<open>Claims\<close>

text \<open>
  C1. Whatever the host, the socket, the document and the plugin do, and in whatever order
  the three readiness flags become true: each of \<^verbatim>\<open>connectionOpened\<close>, \<^verbatim>\<open>documentLoaded\<close>,
  \<^verbatim>\<open>globalSettingsAvailable\<close> and \<^verbatim>\<open>setupReady\<close> has been emitted at most once;
  \<^verbatim>\<open>setupReady\<close> comes only after the three others, and has been emitted once all three
  flags are true; running \<^verbatim>\<open>_handleReadyState\<close> again, or setting again a flag that is
  already true, emits nothing further. The notifications counted are the calls that
  \<^verbatim>\<open>_handleReadyState\<close> makes; were the host to send a frame under one of the four
  names, it would be forwarded like any other frame, with the frame as its parameter.
\<close>

theorem lifecycle_notifications_fire_once:
  assumes "s = run P inputs (state_of (constructor sd_events this))"
  shows "count_list (emitted s) connectionOpened \<le> 1
    \<and> count_list (emitted s) documentLoaded \<le> 1
    \<and> count_list (emitted s) globalSettingsAvailable \<le> 1
    \<and> count_list (emitted s) setupReady \<le> 1
    \<and> (setupReady \<in> set (emitted s) \<longrightarrow>
         connectionOpened \<in> set (before_setupReady s)
         \<and> documentLoaded \<in> set (before_setupReady s)
         \<and> globalSettingsAvailable \<in> set (before_setupReady s))
    \<and> (p_documentReady s \<and> p_connectionReady s \<and> p_globalSettingsReady s \<longrightarrow>
         count_list (emitted s) setupReady = 1)
    \<and> emitted (p_handleReadyState P s) = emitted s
    \<and> (p_documentReady s \<longrightarrow> emitted (state_of (step P DocumentReady s)) = emitted s)
    \<and> (p_connectionReady s \<longrightarrow>
         emitted (p_handleReadyState P (s\<lparr>p_connectionReady := True\<rparr>)) = emitted s)
    \<and> (p_globalSettingsReady s \<longrightarrow>
         emitted (p_handleReadyState P (s\<lparr>p_globalSettingsReady := True\<rparr>)) = emitted s)"
proof -
  have i: "ready_inv s"
    unfolding assms by (rule ready_inv_run) (rule constructor_inv)
  have st: "settled s"
    unfolding assms by (rule settled_run) (rule constructor_inv)
  show ?thesis
    by (intro conjI ready_inv_once [OF i] ready_inv_order [OF i] ready_inv_complete [OF i st]
        settled_quiet [OF st] settled_retrigger [OF st])
qed

theorem lifecycle_notifications_fire_once_witness:
  "ready_run = run sample_platform
     [host_connect, DocumentReady, SocketOpen, SocketMessage (encode (settings_frame 3))]
     (state_of (constructor [(''keyDown'', ''onKeyDown'')] 0))
   \<and> setupReady \<in> set (emitted ready_run)
   \<and> p_documentReady ready_run \<and> p_connectionReady ready_run
   \<and> p_globalSettingsReady ready_run
   \<and> count_list (emitted ready_run) setupReady = 1
   \<and> connectionOpened \<in> set (before_setupReady ready_run)
   \<and> documentLoaded \<in> set (before_setupReady ready_run)
   \<and> globalSettingsAvailable \<in> set (before_setupReady ready_run)
   \<and> emitted (state_of (step sample_platform DocumentReady ready_run)) = emitted ready_run"
proof -
  have r: "ready_run = run sample_platform
     [host_connect, DocumentReady, SocketOpen, SocketMessage (encode (settings_frame 3))]
     (state_of (constructor [(''keyDown'', ''onKeyDown'')] 0))"
    unfolding ready_run_def constructed_def by (rule refl)
  have f: "p_documentReady ready_run" "p_connectionReady ready_run"
    "p_globalSettingsReady ready_run" "setupReady \<in> set (emitted ready_run)"
    by (simp_all add: sample_states ready_state_def connected_state_def connecting_state_def)
  note t = lifecycle_notifications_fire_once [OF r]
  show ?thesis
    by (intro conjI r f) (use t f in blast)+
qed

text \<open>
  C2. When the socket opens, the registration frame is the first frame transmitted, the
  messages passed to \<^verbatim>\<open>send\<close> before then follow it in the order of the calls, and
  every later message comes after them. For the messages sent before the host's call,
  when no socket object exists yet, the code does this (\<open>fifo_delivery\<close>). It does not
  for a message sent after the host's call and before the socket has opened: \<^verbatim>\<open>send\<close>
  hands it to the connecting socket, which raises; the message is not queued and is never
  transmitted, and the run ends in the state of the run without it.
\<close>

theorem message_sent_while_connecting_is_lost:
  "run sample_platform [host_connect] constructed = connecting_state
   \<and> map_option readyState (p_ws connecting_state) = Some CONNECTING
   \<and> step sample_platform
        (CallSend (Str ''setSettings'') (Obj [(''context'', Str ''c1''), (''payload'', Obj [])]))
        connecting_state = Thrown InvalidStateError connecting_state
   \<and> run sample_platform
        [host_connect,
         CallSend (Str ''setSettings'') (Obj [(''context'', Str ''c1''), (''payload'', Obj [])]),
         SocketOpen] constructed = connected_state
   \<and> map_option transmitted (p_ws connected_state)
       = Some [''{\"event\":\"registerPlugin\",\"uuid\":\"ABC\"}'',
               ''{\"event\":\"getGlobalSettings\",\"context\":\"ABC\"}'']
   \<and> p_cachedEvents connected_state = []"
  by (intro conjI; code_simp)

text \<open>
  C3 (amended). For an inbound frame that parses to an object with event \<open>E\<close> (and, when
  \<open>E\<close> is \<^verbatim>\<open>didReceiveGlobalSettings\<close>, carries a payload), the handler returns without
  an error, and the callbacks subscribed to \<open>E\<close> are invoked with the frame in
  registration order, each exactly once if the frame carries no action, or a falsy one
  (\<^verbatim>\<open>null\<close>, \<^verbatim>\<open>false\<close>, \<^verbatim>\<open>0\<close>, the empty string), or the action is itself the wildcard
  marker \<^verbatim>\<open>'*'\<close>, or the subscription's filter is the wildcard marker, or the filter
  equals the action; and not at all otherwise. These are the last invocations the handler
  makes and, unless \<open>E\<close> is \<^verbatim>\<open>didReceiveGlobalSettings\<close>, the only ones; for that event
  the readiness notifications may come before them, and those carry no frame: their
  parameters are none, or the settings manager.
\<close>

theorem subscription_filter_rule:
  assumes "JSON_parse P ev_data = Some frame"
    and "get_prop frame ''event'' = Inr (Str E)"
    and "get_prop frame ''action'' = Inr a"
    and "E = ''didReceiveGlobalSettings'' \<longrightarrow>
           (\<exists>payload settings. get_prop frame ''payload'' = Inr payload
              \<and> get_prop payload ''settings'' = Inr settings)"
    and "map_of (registeredEvents s) E = Some cbs"
    and "\<forall>cb\<in>set cbs. \<exists>f. l_actionName cb = Str f"
  shows "\<exists>s' between. p_eventHandler P ev_data s = Done s'
     \<and> invoked s' = invoked s @ between @ concat (map (\<lambda>cb.
             if a = Undefined \<or> a = Null \<or> \<not> truthy a \<or> a = Str ''*''
                \<or> l_actionName cb = Str ''*'' \<or> l_actionName cb = a
             then [(l_descriptor cb, l_instance cb, [Val frame])] else []) cbs)
     \<and> (\<forall>x\<in>set between. snd (snd x) = [] \<or> snd (snd x) = [SettingsManagerRef])
     \<and> (E \<noteq> ''didReceiveGlobalSettings'' \<longrightarrow> between = [])"
proof -
  define fired where "fired = concat (map (\<lambda>cb.
             if a = Undefined \<or> a = Null \<or> \<not> truthy a \<or> a = Str ''*''
                \<or> l_actionName cb = Str ''*'' \<or> l_actionName cb = a
             then [(l_descriptor cb, l_instance cb, [Val frame])] else []) cbs)"
  define s1 where "s1 = (if p_debug s
        then console_call LOG [Val (Str (''RECEIVE '' @ ToString (Str E))),
               Val frame, MessageEventRef ev_data] s
        else s)"
  have s1: "registeredEvents s1 = registeredEvents s" "invoked s1 = invoked s"
    by (simp_all add: s1_def console_call_def)
  have forward: "invoked (callEvents P (Str E) (coalesce a (Str ''*'')) [Val frame] mid)
         = invoked mid @ fired"
    if "registeredEvents mid = registeredEvents s" for mid
  proof -
    have "Map_get (registeredEvents mid) (Str E) = Some cbs"
      using assms(5) that by (simp add: Map_get_def)
    then have c: "invoked (callEvents P (Str E) (coalesce a (Str ''*'')) [Val frame] mid)
      = invoked mid @ concat (map (\<lambda>cb.
         if \<not> truthy (coalesce a (Str ''*'')) \<or> strict_eq (l_actionName cb) (Str ''*'')
            \<or> strict_eq (l_actionName cb) (coalesce a (Str ''*''))
            \<or> strict_eq (coalesce a (Str ''*'')) (Str ''*'')
         then [(l_descriptor cb, l_instance cb, [Val frame])] else []) cbs)"
      by (rule callEvents_invoked) (rule coalesce_cases)
    have m: "map (\<lambda>cb.
         if \<not> truthy (coalesce a (Str ''*'')) \<or> strict_eq (l_actionName cb) (Str ''*'')
            \<or> strict_eq (l_actionName cb) (coalesce a (Str ''*''))
            \<or> strict_eq (coalesce a (Str ''*'')) (Str ''*'')
         then [(l_descriptor cb, l_instance cb, [Val frame])] else []) cbs
       = map (\<lambda>cb.
             if a = Undefined \<or> a = Null \<or> \<not> truthy a \<or> a = Str ''*''
                \<or> l_actionName cb = Str ''*'' \<or> l_actionName cb = a
             then [(l_descriptor cb, l_instance cb, [Val frame])] else []) cbs"
    proof (rule map_cong [OF refl])
      fix cb assume "cb \<in> set cbs"
      then obtain f where f: "l_actionName cb = Str f" using assms(6) by blast
      show "(if \<not> truthy (coalesce a (Str ''*'')) \<or> strict_eq (l_actionName cb) (Str ''*'')
            \<or> strict_eq (l_actionName cb) (coalesce a (Str ''*''))
            \<or> strict_eq (coalesce a (Str ''*'')) (Str ''*'')
         then [(l_descriptor cb, l_instance cb, [Val frame])] else [])
        = (if a = Undefined \<or> a = Null \<or> \<not> truthy a \<or> a = Str ''*''
                \<or> l_actionName cb = Str ''*'' \<or> l_actionName cb = a
           then [(l_descriptor cb, l_instance cb, [Val frame])] else [])"
        by (subst fires_iff [OF f]) (rule refl)
    qed
    show ?thesis unfolding fired_def by (rule c [unfolded m])
  qed
  have "\<exists>s' between. p_eventHandler P ev_data s = Done s'
     \<and> invoked s' = invoked s @ between @ fired
     \<and> (\<forall>x\<in>set between. snd (snd x) = [] \<or> snd (snd x) = [SettingsManagerRef])
     \<and> (E \<noteq> ''didReceiveGlobalSettings'' \<longrightarrow> between = [])"
  proof (cases "E = ''didReceiveGlobalSettings''")
    case False
    then have h: "p_eventHandler P ev_data s
        = Done (callEvents P (Str E) (coalesce a (Str ''*'')) [Val frame] s1)"
      unfolding s1_def by (intro eventHandler_other assms(1,2,3)) simp
    have "invoked (callEvents P (Str E) (coalesce a (Str ''*'')) [Val frame] s1)
        = invoked s @ [] @ fired"
      using forward [OF s1(1)] s1(2) by simp
    then show ?thesis using h by (intro exI [of _ "[]"] exI conjI) simp_all
  next
    case True
    then obtain payload settings where p: "get_prop frame ''payload'' = Inr payload"
      "get_prop payload ''settings'' = Inr settings"
      using assms(4) by blast
    define pre where "pre = (cacheGlobalSettings settings s1)\<lparr>p_globalSettingsReady := True\<rparr>"
    define mid where "mid = p_handleReadyState P pre"
    have h: "p_eventHandler P ev_data s
        = Done (callEvents P (Str E) (coalesce a (Str ''*'')) [Val frame] mid)"
      using eventHandler_settings [OF assms(1) _ assms(3) p, of s] assms(2) True
      unfolding mid_def pre_def s1_def by simp
    have r: "registeredEvents mid = registeredEvents s"
      by (simp add: mid_def pre_def handleReadyState_keeps cacheGlobalSettings_def s1)
    have "invoked pre = invoked s"
      by (simp add: pre_def cacheGlobalSettings_def s1)
    then obtain between where b: "invoked mid = invoked s @ between"
      "\<forall>x\<in>set between. snd (snd x) = [] \<or> snd (snd x) = [SettingsManagerRef]"
      using handleReadyState_invoked [of P pre] unfolding mid_def by auto
    have "invoked (callEvents P (Str E) (coalesce a (Str ''*'')) [Val frame] mid)
        = invoked s @ between @ fired"
      using forward [OF r] b(1) by simp
    then show ?thesis using h b(2) True by blast
  qed
  then show ?thesis unfolding fired_def .
qed

theorem subscription_filter_rule_witness:
  "JSON_parse sample_platform (encode (keyDown_frame (Str ''com.foo.action1'')))
     = Some (keyDown_frame (Str ''com.foo.action1''))
   \<and> get_prop (keyDown_frame (Str ''com.foo.action1'')) ''event'' = Inr (Str ''keyDown'')
   \<and> get_prop (keyDown_frame (Str ''com.foo.action1'')) ''action''
       = Inr (Str ''com.foo.action1'')
   \<and> ''keyDown'' \<noteq> ''didReceiveGlobalSettings''
   \<and> map_of (registeredEvents filtered_state) ''keyDown''
       = Some [\<lparr>l_event = ''keyDown'', l_actionName = Str ''com.foo.action1'',
                l_instance = 0, l_descriptor = ''onKeyDown''\<rparr>]
   \<and> invoked (state_of (p_eventHandler sample_platform
         (encode (keyDown_frame (Str ''com.foo.action1''))) filtered_state))
       = [(''onKeyDown'', 0, [Val (keyDown_frame (Str ''com.foo.action1''))])]
   \<and> JSON_parse sample_platform (encode (keyDown_frame (Str ''com.foo.action2'')))
     = Some (keyDown_frame (Str ''com.foo.action2''))
   \<and> invoked (state_of (p_eventHandler sample_platform
         (encode (keyDown_frame (Str ''com.foo.action2''))) filtered_state))
       = []
   \<and> JSON_parse sample_platform (encode (settings_frame 7)) = Some (settings_frame 7)
   \<and> get_prop (settings_frame 7) ''event'' = Inr (Str ''didReceiveGlobalSettings'')
   \<and> get_prop (settings_frame 7) ''payload''
       = Inr (Obj [(''settings'', Obj [(''volume'', Num 7)])])
   \<and> get_prop (Obj [(''settings'', Obj [(''volume'', Num 7)])]) ''settings''
       = Inr (Obj [(''volume'', Num 7)])
   \<and> map_of (registeredEvents settings_listeners_state) ''didReceiveGlobalSettings''
       = Some [\<lparr>l_event = ''didReceiveGlobalSettings'', l_actionName = Str ''*'',
                l_instance = 0, l_descriptor = ''onSettings''\<rparr>]
   \<and> filter (\<lambda>x. snd (snd x) = [Val (settings_frame 7)])
         (invoked (state_of (p_eventHandler sample_platform (encode (settings_frame 7))
            settings_listeners_state)))
       = [(''onSettings'', 0, [Val (settings_frame 7)])]"
proof -
  have r: "map_of (registeredEvents filtered_state) ''keyDown''
       = Some [\<lparr>l_event = ''keyDown'', l_actionName = Str ''com.foo.action1'',
                l_instance = 0, l_descriptor = ''onKeyDown''\<rparr>]"
    "invoked filtered_state = []"
    by (simp_all add: filtered_state_def eventListener_def registerEvent_def fresh_def)
  have r': "map_of (registeredEvents settings_listeners_state) ''didReceiveGlobalSettings''
       = Some [\<lparr>l_event = ''didReceiveGlobalSettings'', l_actionName = Str ''*'',
                l_instance = 0, l_descriptor = ''onSettings''\<rparr>]"
    "invoked settings_listeners_state = []"
    by (simp_all add: settings_listeners_state_def eventListener_def registerEvent_def
        fresh_def)
  have f: "\<forall>cb\<in>set [\<lparr>l_event = ''keyDown'', l_actionName = Str ''com.foo.action1'',
                l_instance = 0, l_descriptor = ''onKeyDown''\<rparr>]. \<exists>f. l_actionName cb = Str f"
    "\<forall>cb\<in>set [\<lparr>l_event = ''didReceiveGlobalSettings'', l_actionName = Str ''*'',
                l_instance = 0, l_descriptor = ''onSettings''\<rparr>]. \<exists>f. l_actionName cb = Str f"
    by simp_all
  have n: "''keyDown'' = ''didReceiveGlobalSettings'' \<longrightarrow>
      (\<exists>payload settings. get_prop frame ''payload'' = Inr payload
         \<and> get_prop payload ''settings'' = Inr settings)" for frame
    by simp
  have k: "get_prop (keyDown_frame a) ''event'' = Inr (Str ''keyDown'')"
    "get_prop (keyDown_frame a) ''action'' = Inr a" for a
    by (simp_all add: keyDown_frame_def)
  have h: "get_prop (settings_frame 7) ''event'' = Inr (Str ''didReceiveGlobalSettings'')"
    "get_prop (settings_frame 7) ''action'' = Inr Undefined"
    "get_prop (settings_frame 7) ''payload''
       = Inr (Obj [(''settings'', Obj [(''volume'', Num 7)])])"
    "get_prop (Obj [(''settings'', Obj [(''volume'', Num 7)])]) ''settings''
       = Inr (Obj [(''volume'', Num 7)])"
    by (simp_all add: settings_frame_def)
  have p: "''didReceiveGlobalSettings'' = ''didReceiveGlobalSettings'' \<longrightarrow>
      (\<exists>payload settings. get_prop (settings_frame 7) ''payload'' = Inr payload
         \<and> get_prop payload ''settings'' = Inr settings)"
    using h(3,4) by blast
  have 1: "invoked (state_of (p_eventHandler sample_platform
         (encode (keyDown_frame (Str ''com.foo.action1''))) filtered_state))
       = [(''onKeyDown'', 0, [Val (keyDown_frame (Str ''com.foo.action1''))])]"
    using subscription_filter_rule [OF sample_parse(2) k n r(1) f(1)] r(2) by auto
  have 2: "invoked (state_of (p_eventHandler sample_platform
         (encode (keyDown_frame (Str ''com.foo.action2''))) filtered_state))
       = []"
    using subscription_filter_rule [OF sample_parse(3) k n r(1) f(1)] r(2) by auto
  obtain s' between where 3: "p_eventHandler sample_platform (encode (settings_frame 7))
        settings_listeners_state = Done s'"
    "invoked s' = invoked settings_listeners_state @ between
        @ [(''onSettings'', 0, [Val (settings_frame 7)])]"
    "\<forall>x\<in>set between. snd (snd x) = [] \<or> snd (snd x) = [SettingsManagerRef]"
    using subscription_filter_rule [OF sample_parse(1) h(1,2) p r'(1) f(2)] by auto
  have "filter (\<lambda>x. snd (snd x) = [Val (settings_frame 7)]) between = []"
    using 3(3) by (auto simp add: filter_empty_conv)
  then have 4: "filter (\<lambda>x. snd (snd x) = [Val (settings_frame 7)])
         (invoked (state_of (p_eventHandler sample_platform (encode (settings_frame 7))
            settings_listeners_state)))
       = [(''onSettings'', 0, [Val (settings_frame 7)])]"
    by (simp add: 3(1,2) r'(2))
  show ?thesis
    by (intro conjI sample_parse(1,2,3) k h(1,3,4) r(1) r'(1) 1 2 4) simp
qed

text \<open>As stated the claim fails: a subscription filtered to \<^verbatim>\<open>com.foo.action1\<close> is
  invoked for a frame whose action is \<^verbatim>\<open>"*"\<close>, and for one whose action is the empty
  string, though the filter is neither the wildcard nor equal to the action.\<close>

theorem subscription_filter_rule_counterexample:
  "map_of (registeredEvents filtered_state) ''keyDown''
       = Some [\<lparr>l_event = ''keyDown'', l_actionName = Str ''com.foo.action1'',
                l_instance = 0, l_descriptor = ''onKeyDown''\<rparr>]
   \<and> JSON_parse sample_platform (encode (keyDown_frame (Str ''*'')))
       = Some (keyDown_frame (Str ''*''))
   \<and> invoked (state_of (p_eventHandler sample_platform
         (encode (keyDown_frame (Str ''*''))) filtered_state))
       = [(''onKeyDown'', 0, [Val (keyDown_frame (Str ''*''))])]
   \<and> JSON_parse sample_platform (encode (keyDown_frame (Str [])))
       = Some (keyDown_frame (Str []))
   \<and> invoked (state_of (p_eventHandler sample_platform
         (encode (keyDown_frame (Str []))) filtered_state))
       = [(''onKeyDown'', 0, [Val (keyDown_frame (Str []))])]"
  by (intro conjI; code_simp)

text \<open>
  C4 (amended). \<^verbatim>\<open>send(event, data)\<close> builds the frame \<^verbatim>\<open>{event, ...data}\<close>. If no socket
  object exists yet, its serialisation is appended to the outgoing queue, whatever the
  queue's length, and no error is raised. If the socket exists and is open, the
  serialisation is transmitted at once and the queue is left alone. If the socket exists
  and is closing or closed, the frame is handed to the socket, which discards it: no error
  is raised and nothing is queued.
\<close>

theorem send_transmits_or_queues:
  "(p_ws s = None \<longrightarrow>
      (\<exists>s'. send P event data s = Done s'
         \<and> p_cachedEvents s' = p_cachedEvents s
              @ [JSON_stringify P (Obj (spread_into [(''event'', event)] data))]
         \<and> p_ws s' = None))
   \<and> (\<forall>w. p_ws s = Some w \<and> readyState w = OPEN \<longrightarrow>
      (\<exists>s'. send P event data s = Done s'
         \<and> p_ws s' = Some (w\<lparr>transmitted := transmitted w
              @ [JSON_stringify P (Obj (spread_into [(''event'', event)] data))]\<rparr>)
         \<and> p_cachedEvents s' = p_cachedEvents s))
   \<and> (\<forall>w. p_ws s = Some w \<and> (readyState w = CLOSING \<or> readyState w = CLOSED) \<longrightarrow>
      (\<exists>s'. send P event data s = Done s'
         \<and> p_ws s' = Some w
         \<and> p_cachedEvents s' = p_cachedEvents s))"
  by (auto simp add: send_def Let_def console_call_def)

theorem send_transmits_or_queues_witness:
  "p_ws constructed_state = None
   \<and> (\<exists>s'. send sample_platform (Str ''openUrl'') (Obj [(''payload'', Obj [(''url'', Str ''u'')])])
          constructed_state = Done s'
        \<and> p_cachedEvents s' = [encode (Obj [(''event'', Str ''openUrl''),
             (''payload'', Obj [(''url'', Str ''u'')])])]
        \<and> p_ws s' = None)
   \<and> map_option readyState (p_ws connected_state) = Some OPEN
   \<and> (\<exists>s'. send sample_platform (Str ''openUrl'') (Obj [(''payload'', Obj [(''url'', Str ''u'')])])
          connected_state = Done s'
        \<and> map_option transmitted (p_ws s')
            = Some [encode (Obj [(''event'', Str ''registerPlugin''), (''uuid'', Str ''ABC'')]),
                 encode (Obj [(''event'', Str ''getGlobalSettings''), (''context'', Str ''ABC'')]),
                 encode (Obj [(''event'', Str ''openUrl''),
                   (''payload'', Obj [(''url'', Str ''u'')])])]
        \<and> p_cachedEvents s' = [])
   \<and> map_option readyState (p_ws closed_state) = Some CLOSED
   \<and> (\<exists>s'. send sample_platform (Str ''openUrl'') (Obj [(''payload'', Obj [(''url'', Str ''u'')])])
          closed_state = Done s'
        \<and> p_ws s' = p_ws closed_state
        \<and> p_cachedEvents s' = [])"
proof -
  have f: "spread_into [(''event'', Str ''openUrl'')] (Obj [(''payload'', Obj [(''url'', Str ''u'')])])
      = [(''event'', Str ''openUrl''), (''payload'', Obj [(''url'', Str ''u'')])]"
    by (simp add: spread_into_def)
  have j: "JSON_stringify sample_platform = encode"
    by (simp add: sample_platform_def)
  have h: "p_ws constructed_state = None" "p_cachedEvents constructed_state = []"
    "p_ws connected_state = Some \<lparr>url = ''ws://127.0.0.1:28196'', readyState = OPEN,
              transmitted =
                [encode (Obj [(''event'', Str ''registerPlugin''), (''uuid'', Str ''ABC'')]),
                 encode (Obj [(''event'', Str ''getGlobalSettings''),
                   (''context'', Str ''ABC'')])]\<rparr>"
    "p_cachedEvents connected_state = []"
    "p_ws closed_state = Some \<lparr>url = ''ws://127.0.0.1:28196'', readyState = CLOSED,
              transmitted =
                [encode (Obj [(''event'', Str ''registerPlugin''), (''uuid'', Str ''ABC'')]),
                 encode (Obj [(''event'', Str ''getGlobalSettings''),
                   (''context'', Str ''ABC'')])]\<rparr>"
    "p_cachedEvents closed_state = []"
    by (simp_all add: closed_state_def connected_state_def connecting_state_def
        constructed_state_def fresh_def)
  note t1 = send_transmits_or_queues [of constructed_state sample_platform "Str ''openUrl''"
      "Obj [(''payload'', Obj [(''url'', Str ''u'')])]", unfolded f j]
  note t2 = send_transmits_or_queues [of connected_state sample_platform "Str ''openUrl''"
      "Obj [(''payload'', Obj [(''url'', Str ''u'')])]", unfolded f j]
  note t3 = send_transmits_or_queues [of closed_state sample_platform "Str ''openUrl''"
      "Obj [(''payload'', Obj [(''url'', Str ''u'')])]", unfolded f j]
  have 1: "\<exists>s'. send sample_platform (Str ''openUrl'') (Obj [(''payload'', Obj [(''url'', Str ''u'')])])
          constructed_state = Done s'
        \<and> p_cachedEvents s' = [encode (Obj [(''event'', Str ''openUrl''),
             (''payload'', Obj [(''url'', Str ''u'')])])]
        \<and> p_ws s' = None"
    using t1 h(1,2) by simp
  have 2: "\<exists>s'. send sample_platform (Str ''openUrl'') (Obj [(''payload'', Obj [(''url'', Str ''u'')])])
          connected_state = Done s'
        \<and> map_option transmitted (p_ws s')
            = Some [encode (Obj [(''event'', Str ''registerPlugin''), (''uuid'', Str ''ABC'')]),
                 encode (Obj [(''event'', Str ''getGlobalSettings''), (''context'', Str ''ABC'')]),
                 encode (Obj [(''event'', Str ''openUrl''),
                   (''payload'', Obj [(''url'', Str ''u'')])])]
        \<and> p_cachedEvents s' = []"
    using t2 h(3,4) by auto
  have 3: "\<exists>s'. send sample_platform (Str ''openUrl'') (Obj [(''payload'', Obj [(''url'', Str ''u'')])])
          closed_state = Done s'
        \<and> p_ws s' = p_ws closed_state
        \<and> p_cachedEvents s' = []"
    using t3 h(5,6) by auto
  show ?thesis
    using h(1,3,5) 1 2 3 by simp
qed

text \<open>As stated the claim fails: while the socket is connecting, \<^verbatim>\<open>send\<close> raises and
  queues nothing; once it is closed, \<^verbatim>\<open>send\<close> queues nothing either.\<close>

theorem send_transmits_or_queues_counterexample:
  "map_option readyState (p_ws connecting_state) = Some CONNECTING
   \<and> send sample_platform (Str ''openUrl'') (Obj [(''payload'', Obj [(''url'', Str ''u'')])])
        connecting_state = Thrown InvalidStateError connecting_state
   \<and> p_cachedEvents connecting_state = []
   \<and> map_option readyState (p_ws closed_state) = Some CLOSED
   \<and> send sample_platform (Str ''openUrl'') (Obj [(''payload'', Obj [(''url'', Str ''u'')])])
        closed_state = Done closed_state
   \<and> p_cachedEvents closed_state = []"
  by (intro conjI; code_simp)

text \<open>
  C5 (amended). For a frame that parses to an object (any value but \<^verbatim>\<open>null\<close>): if its
  event is \<^verbatim>\<open>didReceiveGlobalSettings\<close> and it carries a payload, the handler hands
  \<^verbatim>\<open>payload.settings\<close> to the settings cache, sets \<^verbatim>\<open>_globalSettingsReady\<close>, runs
  \<^verbatim>\<open>_handleReadyState\<close> and then forwards the frame; \<^verbatim>\<open>globalSettingsAvailable\<close> has
  then been emitted exactly once, and a receipt when the flag is already true emits only
  the forwarded frame. Every such frame with a payload, and every frame with another
  event, is forwarded as \<^verbatim>\<open>callEvents(frame.event, frame.action ?? '*', frame)\<close>.
\<close>

theorem settings_frame_handling:
  assumes "s = run P inputs (state_of (constructor sd_events this))"
    and "JSON_parse P ev_data = Some frame"
    and "get_prop frame ''event'' = Inr event"
    and "get_prop frame ''action'' = Inr action"
    and "s1 = (if p_debug s
               then console_call LOG [Val (Str (''RECEIVE '' @ ToString event)), Val frame,
                      MessageEventRef ev_data] s
               else s)"
  shows "(event = Str ''didReceiveGlobalSettings''
          \<and> get_prop frame ''payload'' = Inr payload
          \<and> get_prop payload ''settings'' = Inr settings \<longrightarrow>
            p_eventHandler P ev_data s =
              Done (callEvents P event (coalesce action (Str ''*'')) [Val frame]
                (p_handleReadyState P
                  ((cacheGlobalSettings settings s1)\<lparr>p_globalSettingsReady := True\<rparr>)))
            \<and> p_globalSettingsReady (state_of (p_eventHandler P ev_data s))
            \<and> count_list (emitted (state_of (p_eventHandler P ev_data s)))
                 globalSettingsAvailable = 1
            \<and> (p_globalSettingsReady s \<longrightarrow>
                 emitted (state_of (p_eventHandler P ev_data s))
                   = emitted s @ [(event, coalesce action (Str ''*''), [Val frame])]))
     \<and> (event \<noteq> Str ''didReceiveGlobalSettings'' \<longrightarrow>
            p_eventHandler P ev_data s =
              Done (callEvents P event (coalesce action (Str ''*'')) [Val frame] s1))"
proof (intro conjI impI)
  assume "event \<noteq> Str ''didReceiveGlobalSettings''"
  then show "p_eventHandler P ev_data s =
      Done (callEvents P event (coalesce action (Str ''*'')) [Val frame] s1)"
    unfolding assms(5) by (rule eventHandler_other [OF assms(2,3,4)])
next
  assume r: "event = Str ''didReceiveGlobalSettings''
     \<and> get_prop frame ''payload'' = Inr payload \<and> get_prop payload ''settings'' = Inr settings"
  have i: "ready_inv s"
    unfolding assms(1) by (rule ready_inv_run) (rule constructor_inv)
  have st: "settled s"
    unfolding assms(1) by (rule settled_run) (rule constructor_inv)
  define mid where "mid = (cacheGlobalSettings settings s1)\<lparr>p_globalSettingsReady := True\<rparr>"
  have e: "p_eventHandler P ev_data s =
      Done (callEvents P event (coalesce action (Str ''*'')) [Val frame]
        (p_handleReadyState P mid))"
    using eventHandler_settings [of P ev_data frame action payload settings s] assms(2,3,4) r
    unfolding mid_def assms(5) by simp
  show "p_eventHandler P ev_data s =
      Done (callEvents P event (coalesce action (Str ''*'')) [Val frame]
        (p_handleReadyState P
          ((cacheGlobalSettings settings s1)\<lparr>p_globalSettingsReady := True\<rparr>)))"
    using e unfolding mid_def .
  have g: "p_globalSettingsReady (p_handleReadyState P mid)"
    by (simp add: handleReadyState_fields mid_def)
  then show "p_globalSettingsReady (state_of (p_eventHandler P ev_data s))"
    by (simp add: e callEvents_flag_fields)
  have "ready_inv (state_of (p_eventHandler P ev_data s))"
    using i by (rule ready_inv_eventHandler)
  moreover have "p_globalSettingsInvoked (state_of (p_eventHandler P ev_data s))"
    by (simp add: e callEvents_flag_fields handleReadyState_fields mid_def)
  ultimately show "count_list (emitted (state_of (p_eventHandler P ev_data s)))
      globalSettingsAvailable = 1"
    by (simp add: ready_inv_counts)
  show "emitted (state_of (p_eventHandler P ev_data s))
      = emitted s @ [(event, coalesce action (Str ''*''), [Val frame])]"
    if "p_globalSettingsReady s"
  proof -
    have "flags mid = flags s"
      using that
      by (simp add: mid_def assms(5) flags_def cacheGlobalSettings_def console_call_def)
    then have "settled mid" using st settled_same by blast
    then have "emitted (p_handleReadyState P mid) = emitted mid"
      by (rule settled_quiet)
    moreover have "emitted mid = emitted s"
      by (simp add: mid_def assms(5) cacheGlobalSettings_def console_call_def)
    ultimately show ?thesis
      by (simp add: e callEvents_emitted coalesce_cases)
  qed
qed

theorem settings_frame_handling_witness:
  "ready_run = run sample_platform
     [host_connect, DocumentReady, SocketOpen, SocketMessage (encode (settings_frame 3))]
     (state_of (constructor [(''keyDown'', ''onKeyDown'')] 0))
   \<and> JSON_parse sample_platform (encode (settings_frame 7)) = Some (settings_frame 7)
   \<and> get_prop (settings_frame 7) ''event'' = Inr (Str ''didReceiveGlobalSettings'')
   \<and> get_prop (settings_frame 7) ''action'' = Inr Undefined
   \<and> get_prop (settings_frame 7) ''payload''
       = Inr (Obj [(''settings'', Obj [(''volume'', Num 7)])])
   \<and> get_prop (Obj [(''settings'', Obj [(''volume'', Num 7)])]) ''settings''
       = Inr (Obj [(''volume'', Num 7)])
   \<and> p_globalSettingsReady ready_run
   \<and> p_eventHandler sample_platform (encode (settings_frame 7)) ready_run =
       Done (callEvents sample_platform (Str ''didReceiveGlobalSettings'') (Str ''*'')
         [Val (settings_frame 7)]
         (p_handleReadyState sample_platform
           ((cacheGlobalSettings (Obj [(''volume'', Num 7)]) ready_run)
              \<lparr>p_globalSettingsReady := True\<rparr>)))
   \<and> count_list
        (emitted (state_of (p_eventHandler sample_platform (encode (settings_frame 7)) ready_run)))
        globalSettingsAvailable = 1
   \<and> emitted (state_of (p_eventHandler sample_platform (encode (settings_frame 7)) ready_run))
       = emitted ready_run
         @ [(Str ''didReceiveGlobalSettings'', Str ''*'', [Val (settings_frame 7)])]
   \<and> JSON_parse sample_platform (encode keyDown_global) = Some keyDown_global
   \<and> get_prop keyDown_global ''event'' = Inr (Str ''keyDown'')
   \<and> Str ''keyDown'' \<noteq> Str ''didReceiveGlobalSettings''
   \<and> p_eventHandler sample_platform (encode keyDown_global) ready_run =
       Done (callEvents sample_platform (Str ''keyDown'') (Str ''*'') [Val keyDown_global]
         ready_run)"
proof -
  have r: "ready_run = run sample_platform
     [host_connect, DocumentReady, SocketOpen, SocketMessage (encode (settings_frame 3))]
     (state_of (constructor [(''keyDown'', ''onKeyDown'')] 0))"
    unfolding ready_run_def constructed_def by (rule refl)
  have h: "get_prop (settings_frame 7) ''event'' = Inr (Str ''didReceiveGlobalSettings'')"
    "get_prop (settings_frame 7) ''action'' = Inr Undefined"
    "get_prop (settings_frame 7) ''payload''
       = Inr (Obj [(''settings'', Obj [(''volume'', Num 7)])])"
    "get_prop (Obj [(''settings'', Obj [(''volume'', Num 7)])]) ''settings''
       = Inr (Obj [(''volume'', Num 7)])"
    by (simp_all add: settings_frame_def)
  have k: "get_prop keyDown_global ''event'' = Inr (Str ''keyDown'')"
    "get_prop keyDown_global ''action'' = Inr Undefined"
    by (simp_all add: keyDown_global_def)
  have f: "p_globalSettingsReady ready_run" "\<not> p_debug ready_run"
    by (simp_all add: sample_states ready_state_def connected_state_def connecting_state_def
        constructed_state_def fresh_def)
  have c: "coalesce Undefined (Str ''*'') = Str ''*''"
    by (simp add: coalesce_def)
  note t1 = settings_frame_handling [OF r sample_parse(1) h(1,2) refl,
      of "Obj [(''settings'', Obj [(''volume'', Num 7)])]" "Obj [(''volume'', Num 7)]"]
  note t2 = settings_frame_handling [OF r sample_parse(4) k(1,2) refl]
  note d = if_not_P [OF f(2)]
  note u1 = t1 [unfolded c d]
  note u2 = t2 [unfolded c d]
  have 1: "p_eventHandler sample_platform (encode (settings_frame 7)) ready_run =
       Done (callEvents sample_platform (Str ''didReceiveGlobalSettings'') (Str ''*'')
         [Val (settings_frame 7)]
         (p_handleReadyState sample_platform
           ((cacheGlobalSettings (Obj [(''volume'', Num 7)]) ready_run)
              \<lparr>p_globalSettingsReady := True\<rparr>)))"
    "count_list
        (emitted (state_of (p_eventHandler sample_platform (encode (settings_frame 7)) ready_run)))
        globalSettingsAvailable = 1"
    "emitted (state_of (p_eventHandler sample_platform (encode (settings_frame 7)) ready_run))
       = emitted ready_run
         @ [(Str ''didReceiveGlobalSettings'', Str ''*'', [Val (settings_frame 7)])]"
    using u1 h f by blast+
  have 2: "p_eventHandler sample_platform (encode keyDown_global) ready_run =
       Done (callEvents sample_platform (Str ''keyDown'') (Str ''*'') [Val keyDown_global]
         ready_run)"
    using u2 by simp
  show ?thesis
    by (intro conjI r sample_parse h k f 1 2) simp
qed

text \<open>As stated the claim fails: for a \<^verbatim>\<open>didReceiveGlobalSettings\<close> frame without a
  payload, reading \<^verbatim>\<open>eventData.payload.settings\<close> raises a \<^verbatim>\<open>TypeError\<close>; nothing is
  cached, the flag is not set and the frame is not forwarded.\<close>

theorem settings_frame_handling_counterexample:
  "JSON_parse sample_platform (encode bare_settings_frame) = Some bare_settings_frame
   \<and> get_prop bare_settings_frame ''event'' = Inr (Str ''didReceiveGlobalSettings'')
   \<and> get_prop bare_settings_frame ''payload'' = Inr Undefined
   \<and> p_eventHandler sample_platform (encode bare_settings_frame) connected_state
       = Thrown TypeError connected_state
   \<and> p_globalSettingsReady connected_state = False
   \<and> globalSettingsCache connected_state = []
   \<and> emitted connected_state = [connectionOpened]"
  by (intro conjI; code_simp)

text \<open>
  C6. No input resets a readiness flag: a flag that is true stays true through every
  sequence of inputs. When the socket closes, \<^verbatim>\<open>connectionClosed\<close> is emitted and the
  flags and latches are as before; \<^verbatim>\<open>connectionReady\<close> stays true.
\<close>

theorem readiness_flags_monotonic:
  "(p_documentReady s \<longrightarrow> p_documentReady (run P inputs s))
   \<and> (p_connectionReady s \<longrightarrow> p_connectionReady (run P inputs s))
   \<and> (p_globalSettingsReady s \<longrightarrow> p_globalSettingsReady (run P inputs s))
   \<and> (\<forall>w. p_ws s = Some w \<and> readyState w \<noteq> CLOSED \<longrightarrow>
         emitted (state_of (step P SocketClose s))
           = emitted s @ [(Str ''connectionClosed'', Str ''*'', [])]
         \<and> flags (state_of (step P SocketClose s)) = flags s)"
proof -
  have "flags_kept s (run P inputs s)"
    by (rule flags_kept_run) (rule flags_kept_refl)
  then have m: "p_documentReady s \<longrightarrow> p_documentReady (run P inputs s)"
    "p_connectionReady s \<longrightarrow> p_connectionReady (run P inputs s)"
    "p_globalSettingsReady s \<longrightarrow> p_globalSettingsReady (run P inputs s)"
    unfolding flags_kept_def by blast+
  have c: "\<forall>w. p_ws s = Some w \<and> readyState w \<noteq> CLOSED \<longrightarrow>
         emitted (state_of (step P SocketClose s))
           = emitted s @ [(Str ''connectionClosed'', Str ''*'', [])]
         \<and> flags (state_of (step P SocketClose s)) = flags s"
    by (auto simp add: callEvents_emitted callEvents_flags) (simp add: flags_def)
  show ?thesis by (intro conjI m c)
qed

theorem readiness_flags_monotonic_witness:
  "p_documentReady ready_state \<and> p_connectionReady ready_state
   \<and> p_globalSettingsReady ready_state
   \<and> map_option readyState (p_ws ready_state) = Some OPEN
   \<and> p_documentReady (run sample_platform
         [SocketClose, CallSend (Str ''openUrl'') (Obj []), DocumentReady] ready_state)
   \<and> p_connectionReady (run sample_platform
         [SocketClose, CallSend (Str ''openUrl'') (Obj []), DocumentReady] ready_state)
   \<and> p_globalSettingsReady (run sample_platform
         [SocketClose, CallSend (Str ''openUrl'') (Obj []), DocumentReady] ready_state)
   \<and> emitted (state_of (step sample_platform SocketClose ready_state))
       = emitted ready_state @ [(Str ''connectionClosed'', Str ''*'', [])]
   \<and> p_connectionReady (state_of (step sample_platform SocketClose ready_state))"
proof -
  have h: "p_documentReady ready_state" "p_connectionReady ready_state"
    "p_globalSettingsReady ready_state"
    "p_ws ready_state = Some \<lparr>url = ''ws://127.0.0.1:28196'', readyState = OPEN,
              transmitted =
                [encode (Obj [(''event'', Str ''registerPlugin''), (''uuid'', Str ''ABC'')]),
                 encode (Obj [(''event'', Str ''getGlobalSettings''),
                   (''context'', Str ''ABC'')])]\<rparr>"
    by (simp_all add: ready_state_def connected_state_def connecting_state_def)
  note t = readiness_flags_monotonic [of ready_state sample_platform
      "[SocketClose, CallSend (Str ''openUrl'') (Obj []), DocumentReady]"]
  have 1: "p_documentReady (run sample_platform
         [SocketClose, CallSend (Str ''openUrl'') (Obj []), DocumentReady] ready_state)"
    "p_connectionReady (run sample_platform
         [SocketClose, CallSend (Str ''openUrl'') (Obj []), DocumentReady] ready_state)"
    "p_globalSettingsReady (run sample_platform
         [SocketClose, CallSend (Str ''openUrl'') (Obj []), DocumentReady] ready_state)"
    using t h(1-3) by blast+
  have 2: "emitted (state_of (step sample_platform SocketClose ready_state))
       = emitted ready_state @ [(Str ''connectionClosed'', Str ''*'', [])]
     \<and> flags (state_of (step sample_platform SocketClose ready_state)) = flags ready_state"
    using t h(4) by simp
  then have 3: "p_connectionReady (state_of (step sample_platform SocketClose ready_state))"
    using h(2) by (simp add: flags_def)
  show ?thesis
    using h 1 2 3 by simp
qed

text \<open>
  C7. A frame whose text does not parse is dropped: \<^verbatim>\<open>_eventHandler\<close> throws the
  \<^verbatim>\<open>SyntaxError\<close> of \<^verbatim>\<open>JSON.parse\<close> before it has changed anything, the state after
  the message is the state before it, and the inputs that follow are handled as if the
  frame had never arrived.
\<close>

theorem malformed_frame_dropped:
  assumes "JSON_parse P ev_data = None"
  shows "p_eventHandler P ev_data s = Thrown SyntaxError s
    \<and> state_of (step P (SocketMessage ev_data) s) = s
    \<and> run P (SocketMessage ev_data # rest) s = run P rest s"
proof -
  have h: "p_eventHandler P ev_data s = Thrown SyntaxError s"
    using assms by (simp add: p_eventHandler_def)
  then have "state_of (step P (SocketMessage ev_data) s) = s"
    by (simp split: option.split)
  then show ?thesis using h by simp
qed

theorem malformed_frame_dropped_witness:
  "JSON_parse sample_platform ''{event:'' = None
   \<and> p_eventHandler sample_platform ''{event:'' connected_state
       = Thrown SyntaxError connected_state
   \<and> run sample_platform
       [SocketMessage ''{event:'', SocketMessage (encode (keyDown_frame (Str ''com.foo.action1'')))]
       connected_state
     = run sample_platform
       [SocketMessage (encode (keyDown_frame (Str ''com.foo.action1'')))] connected_state
   \<and> invoked (run sample_platform
       [SocketMessage ''{event:'', SocketMessage (encode (keyDown_frame (Str ''com.foo.action1'')))]
       connected_state)
     = [(''onKeyDown'', 0, [Val (keyDown_frame (Str ''com.foo.action1''))])]"
proof -
  have p: "JSON_parse sample_platform ''{event:'' = None"
    by code_simp
  have i: "invoked (run sample_platform
       [SocketMessage (encode (keyDown_frame (Str ''com.foo.action1'')))] connected_state)
     = [(''onKeyDown'', 0, [Val (keyDown_frame (Str ''com.foo.action1''))])]"
    by code_simp
  note t = malformed_frame_dropped [OF p, of connected_state
    "[SocketMessage (encode (keyDown_frame (Str ''com.foo.action1'')))]"]
  show ?thesis
    using p i t by simp
qed

text \<open>
  C8. The listener that \<^verbatim>\<open>DefaultDecoratorEventListener\<close> builds, called with an action
  filter that is not a string, throws \<^verbatim>\<open>IllegalArgumentError\<close> and registers nothing;
  called with a string, it returns, and the callback is the last one registered for the
  event.
\<close>

theorem non_string_filter_rejected:
  "((\<forall>f. actionName \<noteq> Str f) \<longrightarrow>
      eventListener event descriptor actionName instance s
        = Thrown (IllegalArgumentError
            (''actionName needs to be of type string but '' @ typeof actionName @ '' given.'')) s
      \<and> registeredEvents (state_of (eventListener event descriptor actionName instance s))
          = registeredEvents s)
   \<and> (\<forall>f. \<exists>s'. eventListener event descriptor (Str f) instance s = Done s'
         \<and> map_of (registeredEvents s') event
            = Some ((case map_of (registeredEvents s) event of None \<Rightarrow> [] | Some cbs \<Rightarrow> cbs)
                 @ [\<lparr>l_event = event, l_actionName = Str f, l_instance = instance,
                     l_descriptor = descriptor\<rparr>]))"
proof -
  have a: "(\<forall>f. actionName \<noteq> Str f) \<longrightarrow> typeof actionName \<noteq> ''string''"
    by (cases actionName) simp_all
  have b: "\<And>f. map_of (registeredEvents (registerEvent event
        \<lparr>l_event = event, l_actionName = Str f, l_instance = instance,
         l_descriptor = descriptor\<rparr> s)) event
      = Some ((case map_of (registeredEvents s) event of None \<Rightarrow> [] | Some cbs \<Rightarrow> cbs)
           @ [\<lparr>l_event = event, l_actionName = Str f, l_instance = instance,
               l_descriptor = descriptor\<rparr>])"
    by (simp add: registerEvent_def Let_def update_conv' split: option.split)
  show ?thesis
    using a b by (simp add: eventListener_def)
qed

theorem non_string_filter_rejected_witness:
  "(\<forall>f. Num 7 \<noteq> Str f)
   \<and> eventListener ''keyDown'' ''onKeyDown'' (Num 7) 0 constructed_state
       = Thrown (IllegalArgumentError
           ''actionName needs to be of type string but number given.'') constructed_state
   \<and> registeredEvents
        (state_of (eventListener ''keyDown'' ''onKeyDown'' (Num 7) 0 constructed_state))
       = registeredEvents constructed_state
   \<and> (\<exists>s'. eventListener ''keyDown'' ''onKeyDown'' (Str ''com.foo.action1'') 0
         constructed_state = Done s')"
proof -
  note t = non_string_filter_rejected [of "Num 7" "''keyDown''" "''onKeyDown''" 0
      constructed_state]
  have 1: "eventListener ''keyDown'' ''onKeyDown'' (Num 7) 0 constructed_state
       = Thrown (IllegalArgumentError
           ''actionName needs to be of type string but number given.'') constructed_state
   \<and> registeredEvents
        (state_of (eventListener ''keyDown'' ''onKeyDown'' (Num 7) 0 constructed_state))
       = registeredEvents constructed_state"
    using t by simp
  have 2: "\<exists>s'. eventListener ''keyDown'' ''onKeyDown'' (Str ''com.foo.action1'') 0
         constructed_state = Done s'"
    using t by blast
  show ?thesis
    using 1 2 by simp
qed

text \<open>
  C9 (amended). For every event name that is not a property an array of three elements
  has (not \<^verbatim>\<open>'0'\<close>, \<^verbatim>\<open>'1'\<close>, \<^verbatim>\<open>'2'\<close> or \<^verbatim>\<open>'length'\<close>, and not a name inherited from
  the array's prototype chain), so for \<^verbatim>\<open>didReceiveGlobalSettings\<close>,
  \<^verbatim>\<open>globalSettingsAvailable\<close> and \<^verbatim>\<open>setupReady\<close>, the test
  \<^verbatim>\<open>eventName in [...]\<close> is false and \<^verbatim>\<open>callEvents\<close> is the same routine with the branch
  removed. For every event name whatsoever, the two differ in the console output only.
\<close>

theorem membership_test_false:
  "(name \<notin> set [''0'', ''1'', ''2'', ''length''] \<and> name \<notin> set (Array_prototype_keys P) \<longrightarrow>
      \<not> js_in P (Str name) global_only
      \<and> callEvents P (Str name) a ps s = callEvents_unguarded P (Str name) a ps s)
   \<and> mute (callEvents P e a ps s) = mute (callEvents_unguarded P e a ps s)"
proof -
  have n: "\<not> js_in P (Str name) global_only"
    if "name \<notin> set [''0'', ''1'', ''2'', ''length''] \<and> name \<notin> set (Array_prototype_keys P)"
    using that by (simp add: js_in_def global_only_indices)
  have u: "callEvents P (Str name) a ps s = callEvents_unguarded P (Str name) a ps s"
    if "name \<notin> set [''0'', ''1'', ''2'', ''length''] \<and> name \<notin> set (Array_prototype_keys P)"
    using n [OF that] by (simp add: callEvents_def callEvents_unguarded_def Let_def)
  show ?thesis
    using n u mute_callEvents [of P e a ps s] by blast
qed

theorem membership_test_false_witness:
  "''setupReady'' \<notin> set [''0'', ''1'', ''2'', ''length'']
   \<and> ''setupReady'' \<notin> set (Array_prototype_keys sample_platform)
   \<and> \<not> js_in sample_platform (Str ''setupReady'') global_only
   \<and> \<not> js_in sample_platform (Str ''didReceiveGlobalSettings'') global_only
   \<and> \<not> js_in sample_platform (Str ''globalSettingsAvailable'') global_only
   \<and> callEvents sample_platform (Str ''setupReady'') Undefined [] ready_state
       = callEvents_unguarded sample_platform (Str ''setupReady'') Undefined [] ready_state"
proof -
  have h: "''setupReady'' \<notin> set [''0'', ''1'', ''2'', ''length'']"
    "''setupReady'' \<notin> set (Array_prototype_keys sample_platform)"
    "''didReceiveGlobalSettings'' \<notin> set [''0'', ''1'', ''2'', ''length'']"
    "''didReceiveGlobalSettings'' \<notin> set (Array_prototype_keys sample_platform)"
    "''globalSettingsAvailable'' \<notin> set [''0'', ''1'', ''2'', ''length'']"
    "''globalSettingsAvailable'' \<notin> set (Array_prototype_keys sample_platform)"
    by code_simp+
  show ?thesis
    using h membership_test_false [of "''setupReady''" sample_platform Undefined "[]" ready_state]
      membership_test_false [of "''didReceiveGlobalSettings''" sample_platform]
      membership_test_false [of "''globalSettingsAvailable''" sample_platform]
    by blast
qed

text \<open>As stated the claim fails: \<^verbatim>\<open>'length'\<close> is none of \<^verbatim>\<open>'0'\<close>, \<^verbatim>\<open>'1'\<close>, \<^verbatim>\<open>'2'\<close>,
  yet \<^verbatim>\<open>'length' in [...]\<close> is true and the guarded branch writes to the console.\<close>

theorem membership_test_false_counterexample:
  "''length'' \<noteq> ''0'' \<and> ''length'' \<noteq> ''1'' \<and> ''length'' \<noteq> ''2''
   \<and> js_in sample_platform (Str ''length'') global_only
   \<and> console (callEvents sample_platform (Str ''length'') Undefined [] fresh)
       = [(LOG, [Val (Str ''event manager: callEvents''), Val (Str ''eventName:''),
            Val (Str ''length''), Val (Str ''actionName:''), Val (Str ''*''),
            Val (Str ''params:''), ArrayOf []])]
   \<and> console (callEvents_unguarded sample_platform (Str ''length'') Undefined [] fresh) = []"
  by (intro conjI; code_simp)



end
